theory Spec2Isabelle
  imports Complex_Main "HOL-Library.Word"
begin

unbundle bit_operations_syntax

section \<open>Floating-point values\<close>

text \<open>
  numpy computes in IEEE-754 binary64. The finite values of that format are the reals
  \<open>m * 2 ^ e\<close> with \<open>\<bar>m\<bar> < 2 ^ 53\<close> and \<open>-1074 \<le> e \<le> 971\<close>; \<open>is_f64\<close> decides it on
  \<open>x * 2 ^ 1074\<close>, which must be an integer below \<open>2 ^ 2098\<close> whose odd part is below
  \<open>2 ^ 53\<close>.
\<close>

fun odd_part :: "nat \<Rightarrow> nat" where
  "odd_part n = (if n = 0 \<or> odd n then n else odd_part (n div 2))"

definition is_f64 :: "real \<Rightarrow> bool" where
  "is_f64 x =
     (let y = x * 2 ^ 1074
      in y = of_int \<lfloor>y\<rfloor> \<and> \<bar>y\<bar> < 2 ^ 2098 \<and> odd_part (nat \<bar>\<lfloor>y\<rfloor>\<bar>) < 2 ^ 53)"

text \<open>
  What is known of a float. Every operation of binary64 is correctly rounded: when its
  exact result is a value of the format, that value is the result, in whatever order
  numpy adds up a row. Only then does the model name the value, as \<open>F x\<close>. \<open>Rounded\<close>
  stands for a finite float that depends on the rounding, and \<open>Unknown\<close> for a float
  of which nothing is said. Both zeros are \<open>F 0\<close>: no comparison tells them apart.
\<close>

datatype f64 = F real | Rounded | NaN | PInf | NInf | Unknown

text \<open>The result of an operation that cannot overflow and whose exact result is \<open>x\<close>.\<close>

definition rnd :: "real \<Rightarrow> f64" where
  "rnd x = (if is_f64 x then F x else Rounded)"

text \<open>The product, for \<^verbatim>\<open>max_std_dev_from_mean * std_devs\<close>.\<close>

fun fmul :: "f64 \<Rightarrow> f64 \<Rightarrow> f64" where
  "fmul NaN _ = NaN"
| "fmul _ NaN = NaN"
| "fmul (F a) (F b) = (if is_f64 (a * b) then F (a * b) else Unknown)"
| "fmul (F a) Rounded = (if a = 0 then F 0 else Unknown)"
| "fmul Rounded (F b) = (if b = 0 then F 0 else Unknown)"
| "fmul PInf (F b) = (if b = 0 then NaN else if 0 < b then PInf else NInf)"
| "fmul NInf (F b) = (if b = 0 then NaN else if 0 < b then NInf else PInf)"
| "fmul (F a) PInf = (if a = 0 then NaN else if 0 < a then PInf else NInf)"
| "fmul (F a) NInf = (if a = 0 then NaN else if 0 < a then NInf else PInf)"
| "fmul _ _ = Unknown"

text \<open>
  The comparison \<^verbatim>\<open><=\<close>, with \<open>None\<close> where the operands do not decide it. A
  comparison with nan is false.
\<close>

fun fle :: "f64 \<Rightarrow> f64 \<Rightarrow> bool option" where
  "fle NaN _ = Some False"
| "fle _ NaN = Some False"
| "fle (F a) (F b) = Some (a \<le> b)"
| "fle (F a) PInf = Some True"
| "fle (F a) NInf = Some False"
| "fle Rounded PInf = Some True"
| "fle Rounded NInf = Some False"
| "fle _ _ = None"

text \<open>The difference, for \<^verbatim>\<open>np.array(raw_readings) - np.array(self.__offsets)\<close>.\<close>

fun fsub :: "f64 \<Rightarrow> f64 \<Rightarrow> f64" where
  "fsub NaN _ = NaN"
| "fsub _ NaN = NaN"
| "fsub (F a) (F b) = (if is_f64 (a - b) then F (a - b) else Unknown)"
| "fsub (F a) PInf = NInf"
| "fsub (F a) NInf = PInf"
| "fsub _ _ = Unknown"

text \<open>An integer of the array as a float: exact below \<open>2 ^ 53\<close>.\<close>

definition of_int64 :: "int \<Rightarrow> f64" where
  "of_int64 x = (if \<bar>x\<bar> < 2 ^ 53 then F (real_of_int x) else Unknown)"

section \<open>The platform layer: RPi.GPIO and the console\<close>

text \<open>
  \<^verbatim>\<open>HX711Multi.py\<close> drives several HX711 converters through \<^verbatim>\<open>RPi.GPIO\<close>.
  The GPIO port is an external collaborator. It is modelled by the list of calls made so
  far and by a signal: the level of every pin at every instant, where the instant of a
  call is the number of GPIO calls made before it. \<^verbatim>\<open>print\<close> appends a line to the
  console.
\<close>

datatype level = LOW | HIGH

datatype direction = IN | OUT

datatype gpio_call =
    Setwarnings bool
  | Setmode_BCM
  | Setup int direction
  | Output int level
  | Input int level

datatype printed =
    Line string
  | Pin_not_ready int
  | Offsets_line "f64 list"

record world =
  gpio :: "gpio_call list"
  console :: "printed list"

type_synonym signal = "nat \<Rightarrow> int \<Rightarrow> level"

text \<open>\<^verbatim>\<open>GPIO.LOW\<close> is 0 and \<^verbatim>\<open>GPIO.HIGH\<close> is 1.\<close>

fun level_val :: "level \<Rightarrow> int" where
  "level_val LOW = 0"
| "level_val HIGH = 1"

definition GPIO_call :: "gpio_call \<Rightarrow> world \<Rightarrow> world" where
  "GPIO_call c w = w\<lparr>gpio := gpio w @ [c]\<rparr>"

definition GPIO_output :: "int \<Rightarrow> level \<Rightarrow> world \<Rightarrow> world" where
  "GPIO_output pin v w = GPIO_call (Output pin v) w"

definition GPIO_input :: "signal \<Rightarrow> int \<Rightarrow> world \<Rightarrow> level \<times> world" where
  "GPIO_input env pin w =
     (let v = env (length (gpio w)) pin in (v, GPIO_call (Input pin v) w))"

definition py_print :: "printed \<Rightarrow> world \<Rightarrow> world" where
  "py_print l w = w\<lparr>console := console w @ [l]\<rparr>"

section \<open>The numpy operations used by the driver\<close>

text \<open>Python exceptions are values of \<open>py_error\<close>.\<close>

datatype py_error = NameError | TypeError | ValueError

text \<open>\<^verbatim>\<open>np.array(samples).T\<close> for a list of equally long rows.\<close>

definition np_T :: "'a list list \<Rightarrow> 'a list list" where
  "np_T rows =
     (case rows of
        [] \<Rightarrow> []
      | r # _ \<Rightarrow> map (\<lambda>i. map (\<lambda>s. s ! i) rows) [0..<length r])"

text \<open>
  \<^verbatim>\<open>np.mean\<close> of one row of integer samples: the float sum of the row divided by its
  length, nan for an empty row. The sum is exact, in every order of summation, when the
  absolute values add up to less than \<open>2 ^ 53\<close>; the division is rounded once.
\<close>

definition np_mean :: "int list \<Rightarrow> f64" where
  "np_mean xs =
     (if xs = [] then NaN
      else if sum_list (map abs xs) < 2 ^ 53
        then rnd (real_of_int (sum_list xs) / real (length xs))
      else Unknown)"

text \<open>
  \<^verbatim>\<open>np.std\<close> of one row, the population standard deviation: the square root of the
  mean of the squared differences from \<^verbatim>\<open>np.mean\<close>. It is followed where the mean,
  every difference and every square are exact and the squares are integers that add up
  to less than \<open>2 ^ 53\<close>, so that their sum is exact in every order.
\<close>

definition np_std :: "int list \<Rightarrow> f64" where
  "np_std xs =
     (case np_mean xs of
        NaN \<Rightarrow> NaN
      | F m \<Rightarrow>
          (let sq = map (\<lambda>x. (real_of_int x - m)\<^sup>2) xs in
           if list_all (\<lambda>x. is_f64 (real_of_int x - m)) xs \<and>
              list_all (\<lambda>y. is_f64 y \<and> y = of_int \<lfloor>y\<rfloor>) sq \<and> sum_list sq < 2 ^ 53
           then (let v = sum_list sq / real (length xs)
                 in if is_f64 v then rnd (sqrt v) else Rounded)
           else Unknown)
      | _ \<Rightarrow> Unknown)"

text \<open>\<^verbatim>\<open>abs(sample - mean)\<close>, one entry of \<^verbatim>\<open>dists_from_means\<close>.\<close>

definition fdist :: "int \<Rightarrow> f64 \<Rightarrow> f64" where
  "fdist x m =
     (case fsub (of_int64 x) m of
        F r \<Rightarrow> F \<bar>r\<bar>
      | NaN \<Rightarrow> NaN
      | _ \<Rightarrow> Unknown)"

text \<open>
  \<^verbatim>\<open>row[mask]\<close>: boolean-mask indexing. The selection is known when every entry of
  the mask is.
\<close>

definition mask_select :: "'a list \<Rightarrow> bool option list \<Rightarrow> 'a list option" where
  "mask_select row keep =
     (if list_all (\<lambda>b. b \<noteq> None) keep
      then Some (map fst (filter (\<lambda>(x, b). b = Some True) (zip row keep)))
      else None)"

text \<open>\<^verbatim>\<open>np.average\<close> of a selected row: its \<^verbatim>\<open>np.mean\<close>, nan when nothing is selected.\<close>

definition np_average :: "int list option \<Rightarrow> f64" where
  "np_average sel = (case sel of None \<Rightarrow> Unknown | Some xs \<Rightarrow> np_mean xs)"

text \<open>
  Subtraction of two one-dimensional arrays with numpy's broadcasting: equal lengths
  subtract elementwise, an array of length 1 is stretched over the other, and any other
  pair of shapes raises \<^verbatim>\<open>ValueError\<close>.
\<close>

definition np_subtract :: "f64 list \<Rightarrow> f64 list \<Rightarrow> py_error + f64 list" where
  "np_subtract a b =
     (if length a = length b then Inr (map2 fsub a b)
      else if length a = 1 then Inr (map (\<lambda>y. fsub (hd a) y) b)
      else if length b = 1 then Inr (map (\<lambda>x. fsub x (hd b)) a)
      else Inl ValueError)"

section \<open>The class \<^verbatim>\<open>HX711_Multi\<close>\<close>

text \<open>
  The attributes of an instance. \<open>gain\<close> holds the number of extra clock pulses, \<open>None\<close>
  while it is unset; \<open>offsets\<close> starts as the empty list. The attribute
  \<^verbatim>\<open>__num_of_HX711s\<close> is assigned once, to \<^verbatim>\<open>len(self.__DOUT_pins)\<close>, and is read
  as that length here.
\<close>

record HX711_Multi =
  PD_SCK_pin :: int
  DOUT_pins :: "int list"
  gain :: "int option"
  debug_enabled :: bool
  offsets :: "f64 list"
  timeout :: int

definition num_of_HX711s :: "HX711_Multi \<Rightarrow> nat" where
  "num_of_HX711s self = length (DOUT_pins self)"

subsection \<open>Construction\<close>

definition setGain :: "HX711_Multi \<Rightarrow> int \<Rightarrow> world \<Rightarrow> HX711_Multi \<times> world" where
  "setGain self g w =
     (if g = 128 then (self\<lparr>gain := Some 1\<rparr>, w)
      else if g = 64 then (self\<lparr>gain := Some 3\<rparr>, w)
      else if debug_enabled self
        then (self, py_print (Line ''Invalid gain used. Pass values of 128 or 64 only!'') w)
      else (self, w))"

definition powerUp :: "HX711_Multi \<Rightarrow> world \<Rightarrow> world" where
  "powerUp self w = GPIO_output (PD_SCK_pin self) LOW w"

fun setup_inputs :: "int list \<Rightarrow> world \<Rightarrow> world" where
  "setup_inputs [] w = w"
| "setup_inputs (pin # pins) w = setup_inputs pins (GPIO_call (Setup pin IN) w)"

text \<open>
  \<^verbatim>\<open>__init__\<close>. It has no failing branch: it returns the instance whatever the gain is.
\<close>

definition init :: "int list \<Rightarrow> int \<Rightarrow> int \<Rightarrow> bool \<Rightarrow> world \<Rightarrow> py_error + HX711_Multi \<times> world" where
  "init data_pins clock_pin g debug w =
     (let self = \<lparr>PD_SCK_pin = clock_pin, DOUT_pins = data_pins, gain = None,
                  debug_enabled = debug, offsets = [], timeout = 300\<rparr>;
          w1 = GPIO_call (Setwarnings False) w;
          w2 = GPIO_call Setmode_BCM w1;
          w3 = GPIO_call (Setup (PD_SCK_pin self) OUT) w2;
          w4 = setup_inputs (DOUT_pins self) w3;
          (self', w5) = setGain self g w4
      in Inr (self', powerUp self' w5))"

subsection \<open>\<^verbatim>\<open>isReady\<close>\<close>

text \<open>
  The loop over the data pins. On a pin that reads high, the debug branch prints and
  goes on to the next pin (\<^verbatim>\<open>continue\<close>); only without debug is \<^verbatim>\<open>False\<close> returned.
\<close>

fun isReady_pins :: "signal \<Rightarrow> bool \<Rightarrow> int list \<Rightarrow> world \<Rightarrow> bool \<times> world" where
  "isReady_pins env debug [] w = (True, w)"
| "isReady_pins env debug (data_pin # pins) w =
     (let (v, w1) = GPIO_input env data_pin w in
      if v = HIGH then
        (if debug then isReady_pins env debug pins (py_print (Pin_not_ready data_pin) w1)
         else (False, w1))
      else isReady_pins env debug pins w1)"

definition isReady :: "signal \<Rightarrow> HX711_Multi \<Rightarrow> world \<Rightarrow> bool \<times> world" where
  "isReady env self w = isReady_pins env (debug_enabled self) (DOUT_pins self) w"

subsection \<open>\<^verbatim>\<open>readRaw\<close>\<close>

text \<open>
  The inner loop of a data pulse: \<^verbatim>\<open>for i, data_pin in enumerate(self.__DOUT_pins)\<close>.
\<close>

fun sample_pins :: "signal \<Rightarrow> int list \<Rightarrow> nat \<Rightarrow> int list \<Rightarrow> world \<Rightarrow> int list \<times> world" where
  "sample_pins env [] i readings w = (readings, w)"
| "sample_pins env (data_pin # pins) i readings w =
     (let r1 = readings[i := push_bit 1 (readings ! i)];
          (v, w1) = GPIO_input env data_pin w;
          r2 = r1[i := (r1 ! i) OR level_val v]
      in sample_pins env pins (Suc i) r2 w1)"

text \<open>The outer loop, \<^verbatim>\<open>for bits in range(24)\<close>, with the number of rounds left.\<close>

fun clock_bits :: "signal \<Rightarrow> HX711_Multi \<Rightarrow> nat \<Rightarrow> int list \<Rightarrow> world \<Rightarrow> int list \<times> world" where
  "clock_bits env self 0 readings w = (readings, w)"
| "clock_bits env self (Suc n) readings w =
     (let w1 = GPIO_output (PD_SCK_pin self) HIGH w;
          w2 = GPIO_output (PD_SCK_pin self) LOW w1;
          (r, w3) = sample_pins env (DOUT_pins self) 0 readings w2
      in clock_bits env self n r w3)"

text \<open>\<^verbatim>\<open>for _ in range(self.__gain)\<close>, once the gain is known to be an integer.\<close>

fun gain_pulses :: "HX711_Multi \<Rightarrow> nat \<Rightarrow> world \<Rightarrow> world" where
  "gain_pulses self 0 w = w"
| "gain_pulses self (Suc n) w =
     gain_pulses self n
       (GPIO_output (PD_SCK_pin self) LOW (GPIO_output (PD_SCK_pin self) HIGH w))"

text \<open>
  The last loop of \<^verbatim>\<open>readRaw\<close>: \<^verbatim>\<open>for reading in readings\<close> assigns the decoded value
  to the loop variable \<^verbatim>\<open>reading\<close> and never stores it in the list. The first argument
  is the rest of the iteration, the second the list \<^verbatim>\<open>readings\<close>.
\<close>

fun decode_loop :: "int list \<Rightarrow> int list \<Rightarrow> int list" where
  "decode_loop [] readings = readings"
| "decode_loop (reading # rest) readings =
     (let reading' =
            (if reading AND push_bit (24 - 1) 1 \<noteq> 0 then reading - push_bit 24 1
             else reading)
      in decode_loop rest readings)"

text \<open>
  The readiness warning at the head of \<^verbatim>\<open>readRaw\<close>: \<^verbatim>\<open>isReady\<close> is called only when
  debug is enabled (\<^verbatim>\<open>and\<close> short-circuits).
\<close>

definition readRaw_warn :: "signal \<Rightarrow> HX711_Multi \<Rightarrow> world \<Rightarrow> world" where
  "readRaw_warn env self w =
     (if debug_enabled self then
        (let (ready, w1) = isReady env self w in
         if \<not> ready then
           py_print (Line ''HX711s are not ready! Ensure isReady() returns True before calling read() or readRaw()'') w1
         else w1)
      else w)"

definition readRaw :: "signal \<Rightarrow> HX711_Multi \<Rightarrow> world \<Rightarrow> (py_error + int list) \<times> world" where
  "readRaw env self w =
     (let w0 = readRaw_warn env self w;
          (readings, w1) = clock_bits env self 24 (replicate (num_of_HX711s self) 0) w0;
          w2 = GPIO_output (PD_SCK_pin self) LOW w1
      in case gain self of
           None \<Rightarrow> (Inl TypeError, w2)
         | Some g \<Rightarrow> (Inr (decode_loop readings readings), gain_pulses self (nat g) w2))"

subsection \<open>\<^verbatim>\<open>read\<close>\<close>

text \<open>What \<^verbatim>\<open>read\<close> returns: \<^verbatim>\<open>False\<close> or an array.\<close>

datatype read_result = RFalse | RArray "f64 list"

text \<open>\<^verbatim>\<open>raw_readings == False\<close> compares a list with a bool, which Python answers with False.\<close>

definition list_eq_False :: "int list \<Rightarrow> bool" where
  "list_eq_False raw_readings = False"

definition read :: "signal \<Rightarrow> HX711_Multi \<Rightarrow> world \<Rightarrow> (py_error + read_result) \<times> world" where
  "read env self w =
     (case readRaw env self w of
        (Inl e, w1) \<Rightarrow> (Inl e, w1)
      | (Inr raw_readings, w1) \<Rightarrow>
          if list_eq_False raw_readings then (Inr RFalse, w1)
          else (case np_subtract (map of_int64 raw_readings) (offsets self) of
                  Inl e \<Rightarrow> (Inl e, w1)
                | Inr a \<Rightarrow> (Inr (RArray a), w1)))"

subsection \<open>\<^verbatim>\<open>tare\<close>\<close>

text \<open>
  The polling loop \<^verbatim>\<open>while len(samples) < num_of_samples\<close>. Nothing bounds it: while
  the converters are not ready it polls again, so it is a partial function and \<open>None\<close>
  stands for a loop that never ends.
\<close>

partial_function (option) tare_collect ::
  "signal \<Rightarrow> HX711_Multi \<Rightarrow> int \<Rightarrow> int list list \<Rightarrow> world \<Rightarrow> ((py_error + int list list) \<times> world) option"
where
  "tare_collect env self num_of_samples samples w =
     (if int (length samples) < num_of_samples then
        (if fst (isReady env self w) then
           (case fst (readRaw env self (snd (isReady env self w))) of
              Inl e \<Rightarrow> Some (Inl e, snd (readRaw env self (snd (isReady env self w))))
            | Inr r \<Rightarrow>
                tare_collect env self num_of_samples (samples @ [r])
                  (snd (readRaw env self (snd (isReady env self w)))))
         else tare_collect env self num_of_samples samples (snd (isReady env self w)))
      else Some (Inr samples, w))"

text \<open>
  The statistics of \<^verbatim>\<open>tare\<close>, on the transposed samples (one row per channel):
  \<^verbatim>\<open>means\<close>, \<^verbatim>\<open>std_devs\<close>, \<^verbatim>\<open>dists_from_means\<close>, the mask \<^verbatim>\<open>no_outliers\<close> and
  \<^verbatim>\<open>clean_data\<close>, with numpy's broadcasting of a column over the rows written out.
\<close>

definition means_of :: "int list list \<Rightarrow> f64 list" where
  "means_of samples = map np_mean samples"

definition std_devs_of :: "int list list \<Rightarrow> f64 list" where
  "std_devs_of samples = map np_std samples"

definition dists_from_means :: "int list list \<Rightarrow> f64 list list" where
  "dists_from_means samples =
     map2 (\<lambda>row m. map (\<lambda>x. fdist x m) row) samples (means_of samples)"

definition no_outliers :: "f64 \<Rightarrow> int list list \<Rightarrow> bool option list list" where
  "no_outliers max_std_dev_from_mean samples =
     map2 (\<lambda>dists s. map (\<lambda>d. fle d (fmul max_std_dev_from_mean s)) dists)
       (dists_from_means samples) (std_devs_of samples)"

definition clean_data :: "f64 \<Rightarrow> int list list \<Rightarrow> int list option list" where
  "clean_data max_std_dev_from_mean samples =
     map (\<lambda>(i, row). mask_select row (no_outliers max_std_dev_from_mean samples ! i))
       (zip [0..<length samples] samples)"

text \<open>
  \<^verbatim>\<open>clean_data_length\<close>, the number of retained samples over all channels. The source
  computes it and never reads it.
\<close>

definition clean_data_length :: "int list option list \<Rightarrow> nat option" where
  "clean_data_length clean =
     (if list_all (\<lambda>sel. sel \<noteq> None) clean
      then Some (sum_list (map (\<lambda>sel. length (the sel)) clean))
      else None)"

text \<open>
  \<^verbatim>\<open>tare\<close> returns a bool or raises, and may replace the offsets. The validity test
  compares \<^verbatim>\<open>len(clean_data)\<close> with \<^verbatim>\<open>0.8*len(samples)\<close>, both numbers of channels;
  its branch ends in \<^verbatim>\<open>return false\<close>, an undefined name. Python compares the
  integer with the float exactly, and 0.8 times a count, rounded or not, is below the
  count, so the test is taken over the reals.
\<close>

definition tare ::
  "signal \<Rightarrow> HX711_Multi \<Rightarrow> int \<Rightarrow> f64 \<Rightarrow> world \<Rightarrow> ((py_error + bool) \<times> HX711_Multi \<times> world) option"
where
  "tare env self num_of_samples max_std_dev_from_mean w =
     (if num_of_samples < 100 then
        Some (Inr False, self, py_print (Line ''Cannot tare with less than 100 samples!'') w)
      else
        (case tare_collect env self num_of_samples [] w of
           None \<Rightarrow> None
         | Some (Inl e, w1) \<Rightarrow> Some (Inl e, self, w1)
         | Some (Inr collected, w1) \<Rightarrow>
             (let samples = np_T collected;
                  clean = clean_data max_std_dev_from_mean samples;
                  total = clean_data_length clean
              in if real (length clean) < 0.8 * real (length samples) then
                   Some (Inl NameError, self,
                     (if debug_enabled self
                      then py_print (Line ''Failed to tare. Excessive deviations measured.'') w1
                      else w1))
                 else
                   (let avg_samples = map np_average clean;
                        self' = self\<lparr>offsets := avg_samples\<rparr>
                    in Some (Inr True, self',
                         (if debug_enabled self'
                          then py_print (Offsets_line (offsets self'))
                                 (py_print (Line ''Tared, offsets:'') w1)
                          else w1))))))"

section \<open>Notions used in the statements\<close>

text \<open>The world after further GPIO calls.\<close>

definition extend :: "world \<Rightarrow> gpio_call list \<Rightarrow> world" where
  "extend w calls = w\<lparr>gpio := gpio w @ calls\<rparr>"

text \<open>
  A protocol cycle whose first clock pulse starts at instant \<open>t\<close>: every data pulse is
  two writes of the clock and one read per channel, so pulse \<open>k\<close> (counted from 0) reads
  channel \<open>i\<close> at instant \<open>t + k * (N + 2) + 2 + i\<close>. \<open>pin_level\<close> is the level read
  there, \<open>data_pulse\<close> the GPIO calls of pulse \<open>k\<close>.
\<close>

definition pin_level :: "signal \<Rightarrow> HX711_Multi \<Rightarrow> nat \<Rightarrow> nat \<Rightarrow> nat \<Rightarrow> level" where
  "pin_level env self t k i =
     env (t + k * (num_of_HX711s self + 2) + 2 + i) (DOUT_pins self ! i)"

definition data_pulse :: "signal \<Rightarrow> HX711_Multi \<Rightarrow> nat \<Rightarrow> nat \<Rightarrow> gpio_call list" where
  "data_pulse env self t k =
     [Output (PD_SCK_pin self) HIGH, Output (PD_SCK_pin self) LOW] @
     map (\<lambda>i. Input (DOUT_pins self ! i) (pin_level env self t k i)) [0..<num_of_HX711s self]"

definition data_pulses :: "signal \<Rightarrow> HX711_Multi \<Rightarrow> nat \<Rightarrow> gpio_call list" where
  "data_pulses env self t = concat (map (data_pulse env self t) [0..<24])"

definition gain_calls :: "HX711_Multi \<Rightarrow> nat \<Rightarrow> gpio_call list" where
  "gain_calls self g =
     concat (replicate g [Output (PD_SCK_pin self) HIGH, Output (PD_SCK_pin self) LOW])"

text \<open>The value shifted in for channel \<open>i\<close>: the level of pulse \<open>k\<close> lands on bit \<open>23 - k\<close>.\<close>

definition cycle_value :: "signal \<Rightarrow> HX711_Multi \<Rightarrow> nat \<Rightarrow> nat \<Rightarrow> int" where
  "cycle_value env self t i = (\<Sum>k<24. level_val (pin_level env self t k i) * 2 ^ (23 - k))"

text \<open>
  The number of GPIO calls of one round of the polling loop of \<open>tare\<close> that finds the
  converters ready, without debug: the readiness reads, 24 data pulses, the write that
  drives the clock low and \<open>g\<close> gain pulses.
\<close>

definition poll_period :: "HX711_Multi \<Rightarrow> nat \<Rightarrow> nat" where
  "poll_period self g = num_of_HX711s self + 24 * (num_of_HX711s self + 2) + 1 + 2 * g"

text \<open>
  Outlier rejection as the specification words it, for one channel: a sample is retained
  when its distance from the mean of the channel is at most the factor times the standard
  deviation of the channel, all in float arithmetic.
\<close>

definition retained :: "f64 \<Rightarrow> int list \<Rightarrow> int list option" where
  "retained d row =
     mask_select row (map (\<lambda>x. fle (fdist x (np_mean row)) (fmul d (np_std row))) row)"

text \<open>The mean and the population standard deviation of a row over the reals.\<close>

definition exact_mean :: "int list \<Rightarrow> real" where
  "exact_mean xs = real_of_int (sum_list xs) / real (length xs)"

definition exact_std :: "int list \<Rightarrow> real" where
  "exact_std xs =
     sqrt (sum_list (map (\<lambda>x. (real_of_int x - exact_mean xs)\<^sup>2) xs) / real (length xs))"


text \<open>
  A test bench: the world before any call, and one converter with its data line on pin 5
  and the clock on pin 6, constructed with gain 128, without and with debug.
\<close>

definition power_on :: world where
  "power_on = \<lparr>gpio = [], console = []\<rparr>"

definition bench :: "HX711_Multi \<times> world" where
  "bench = projr (init [5] 6 128 False power_on)"

definition bench_debug :: "HX711_Multi \<times> world" where
  "bench_debug = projr (init [5] 6 128 True power_on)"

text \<open>
  A converter on the bench that is ready at every poll of \<open>tare\<close> and delivers the
  conversion \<open>v j\<close> in round \<open>j\<close>, most significant bit first. The five calls of the
  constructor come first; a round takes 76 calls, and its data pulse \<open>k\<close> is read at
  instant \<open>8 + 76 * j + 3 * k\<close>.
\<close>

definition hx711_signal :: "(nat \<Rightarrow> int) \<Rightarrow> signal" where
  "hx711_signal v t pin =
     (if 8 \<le> t \<and> (t - 8) mod 76 mod 3 = 0 \<and> (t - 8) mod 76 div 3 < 24 \<and>
         bit (v ((t - 8) div 76)) (23 - (t - 8) mod 76 div 3)
      then HIGH else LOW)"


section \<open>Basic facts\<close>

lemma gpio_py_print: "gpio (py_print l w) = gpio w"
  by (simp add: py_print_def)

lemma extend_simps [simp]:
  "gpio (extend w cs) = gpio w @ cs"
  "console (extend w cs) = console w"
  "extend (extend w cs) ds = extend w (cs @ ds)"
  "extend w [] = w"
  by (simp_all add: extend_def)

lemma GPIO_call_extend: "GPIO_call c w = extend w [c]"
  by (simp add: GPIO_call_def extend_def)

lemma shift_or_level: "push_bit 1 (r::int) OR level_val v = 2 * r + level_val v"
  by (cases v) (simp_all add: push_bit_eq_mult or_one_eq)

lemma sample_pins_closed:
  "i + length ps \<le> length rs \<Longrightarrow> length (gpio w) = t \<Longrightarrow>
   sample_pins env ps i rs w =
     (map (\<lambda>j. if i \<le> j \<and> j < i + length ps
                then 2 * rs ! j + level_val (env (t + (j - i)) (ps ! (j - i)))
                else rs ! j) [0..<length rs],
      extend w (map (\<lambda>m. Input (ps ! m) (env (t + m) (ps ! m))) [0..<length ps]))"
proof (induction ps arbitrary: i rs w t)
  case Nil
  then show ?case by (auto intro!: nth_equalityI)
next
  case (Cons p ps)
  let ?r2 = "rs[i := 2 * rs ! i + level_val (env t p)]"
  let ?w1 = "extend w [Input p (env t p)]"
  have len: "Suc i + length ps \<le> length ?r2" using Cons.prems by simp
  have t1: "length (gpio ?w1) = Suc t" using Cons.prems by simp
  have vals: "map (\<lambda>j. if Suc i \<le> j \<and> j < Suc i + length ps
                then 2 * ?r2 ! j + level_val (env (Suc t + (j - Suc i)) (ps ! (j - Suc i)))
                else ?r2 ! j) [0..<length ?r2]
     = map (\<lambda>j. if i \<le> j \<and> j < i + length (p # ps)
                then 2 * rs ! j + level_val (env (t + (j - i)) ((p # ps) ! (j - i)))
                else rs ! j) [0..<length rs]"
  proof (rule map_cong)
    show "[0..<length ?r2] = [0..<length rs]" by simp
  next
    fix j assume "j \<in> set [0..<length rs]"
    have "Suc i \<le> j \<Longrightarrow> Suc t + (j - Suc i) = t + (j - i)"
      by arith
    moreover have "Suc i \<le> j \<Longrightarrow> (p # ps) ! (j - i) = ps ! (j - Suc i)"
      by (simp add: nth_Cons')
    ultimately show "(if Suc i \<le> j \<and> j < Suc i + length ps
                then 2 * ?r2 ! j + level_val (env (Suc t + (j - Suc i)) (ps ! (j - Suc i)))
                else ?r2 ! j) = (if i \<le> j \<and> j < i + length (p # ps)
                then 2 * rs ! j + level_val (env (t + (j - i)) ((p # ps) ! (j - i)))
                else rs ! j)"
      using Cons.prems by (cases "j = i") (auto simp: nth_list_update)
  qed
  have evs: "[Input p (env t p)] @
       map (\<lambda>m. Input (ps ! m) (env (Suc t + m) (ps ! m))) [0..<length ps]
     = map (\<lambda>m. Input ((p # ps) ! m) (env (t + m) ((p # ps) ! m))) [0..<length (p # ps)]"
    by (simp add: upt_conv_Cons map_Suc_upt [symmetric] del: upt_Suc)
  have upd: "(rs[i := push_bit 1 (rs ! i)])[i := (rs[i := push_bit 1 (rs ! i)]) ! i OR level_val v]
      = rs[i := 2 * rs ! i + level_val v]" for v
  proof -
    have "i < length rs" using Cons.prems by simp
    then show ?thesis
      by (simp only: list_update_overwrite nth_list_update_eq shift_or_level)
  qed
  have step: "sample_pins env (p # ps) i rs w = sample_pins env ps (Suc i) ?r2 ?w1"
    using Cons.prems(2)
    by (simp only: sample_pins.simps GPIO_input_def GPIO_call_extend Let_def prod.case upd)
  show ?case
    by (simp only: step Cons.IH [OF len t1] vals extend_simps evs)
qed


lemma pin_level_shift:
  "pin_level env self (t + num_of_HX711s self + 2) k i = pin_level env self t (Suc k) i"
proof -
  have "t + num_of_HX711s self + 2 + k * (num_of_HX711s self + 2) + 2 + i
      = t + Suc k * (num_of_HX711s self + 2) + 2 + i"
    by simp
  then show ?thesis by (simp only: pin_level_def)
qed

lemma data_pulse_shift:
  "data_pulse env self (t + num_of_HX711s self + 2) k = data_pulse env self t (Suc k)"
  by (simp only: data_pulse_def pin_level_shift)

lemma one_pulse:
  assumes "length rs = num_of_HX711s self" and "length (gpio w) = t"
  shows "sample_pins env (DOUT_pins self) 0 rs
           (GPIO_output (PD_SCK_pin self) LOW (GPIO_output (PD_SCK_pin self) HIGH w)) =
         (map (\<lambda>i. 2 * rs ! i + level_val (pin_level env self t 0 i)) [0..<num_of_HX711s self],
          extend w (data_pulse env self t 0))"
proof -
  let ?w2 = "extend w [Output (PD_SCK_pin self) HIGH, Output (PD_SCK_pin self) LOW]"
  have w2: "GPIO_output (PD_SCK_pin self) LOW (GPIO_output (PD_SCK_pin self) HIGH w) = ?w2"
    by (simp add: GPIO_output_def GPIO_call_extend)
  have le: "0 + length (DOUT_pins self) \<le> length rs"
    using assms by (simp add: num_of_HX711s_def)
  have t2: "length (gpio ?w2) = t + 2" using assms by simp
  show ?thesis
    unfolding w2 sample_pins_closed [OF le t2]
    using assms by (simp add: data_pulse_def pin_level_def num_of_HX711s_def)
qed

lemma clock_bits_closed:
  "length rs = num_of_HX711s self \<Longrightarrow> length (gpio w) = t \<Longrightarrow>
   clock_bits env self n rs w =
     (map (\<lambda>i. rs ! i * 2 ^ n + (\<Sum>k<n. level_val (pin_level env self t k i) * 2 ^ (n - 1 - k)))
        [0..<num_of_HX711s self],
      extend w (concat (map (data_pulse env self t) [0..<n])))"
proof (induction n arbitrary: rs w t)
  case 0
  then show ?case by (auto intro!: nth_equalityI)
next
  case (Suc n)
  let ?N = "num_of_HX711s self"
  let ?r1 = "map (\<lambda>i. 2 * rs ! i + level_val (pin_level env self t 0 i)) [0..<?N]"
  let ?w3 = "extend w (data_pulse env self t 0)"
  have step: "clock_bits env self (Suc n) rs w = clock_bits env self n ?r1 ?w3"
    by (simp add: one_pulse [OF Suc.prems] Let_def)
  have len: "length ?r1 = ?N" by simp
  have t3: "length (gpio ?w3) = t + ?N + 2"
    using Suc.prems by (simp add: data_pulse_def)
  have vals: "map (\<lambda>i. ?r1 ! i * 2 ^ n +
                 (\<Sum>k<n. level_val (pin_level env self t (Suc k) i) * 2 ^ (n - 1 - k))) [0..<?N]
      = map (\<lambda>i. rs ! i * 2 ^ Suc n +
                 (\<Sum>k<Suc n. level_val (pin_level env self t k i) * 2 ^ (Suc n - 1 - k))) [0..<?N]"
  proof (rule map_cong [OF refl])
    fix i assume "i \<in> set [0..<?N]"
    then have "?r1 ! i = 2 * rs ! i + level_val (pin_level env self t 0 i)" by simp
    then show "?r1 ! i * 2 ^ n +
                 (\<Sum>k<n. level_val (pin_level env self t (Suc k) i) * 2 ^ (n - 1 - k))
       = rs ! i * 2 ^ Suc n +
                 (\<Sum>k<Suc n. level_val (pin_level env self t k i) * 2 ^ (Suc n - 1 - k))"
      by (simp add: sum.lessThan_Suc_shift algebra_simps del: sum.lessThan_Suc)
  qed
  have evs: "data_pulse env self t 0 @ concat (map (\<lambda>k. data_pulse env self t (Suc k)) [0..<n])
      = concat (map (data_pulse env self t) [0..<Suc n])"
    by (simp add: upt_conv_Cons map_Suc_upt [symmetric] comp_def del: upt_Suc)
  show ?case
    by (simp only: step Suc.IH [OF len t3] pin_level_shift data_pulse_shift vals extend_simps evs)
qed


lemma decode_loop_id: "decode_loop rest readings = readings"
  by (induction rest) (simp_all add: Let_def)

lemma gain_pulses_closed:
  "gain_pulses self n w =
     extend w (concat (replicate n [Output (PD_SCK_pin self) HIGH, Output (PD_SCK_pin self) LOW]))"
  by (induction n arbitrary: w) (simp_all add: GPIO_output_def GPIO_call_extend)

lemma readRaw_closed:
  assumes "length (gpio (readRaw_warn env self w)) = t"
  shows "readRaw env self w =
     (case gain self of
        None \<Rightarrow> (Inl TypeError,
                 extend (readRaw_warn env self w)
                   (data_pulses env self t @ [Output (PD_SCK_pin self) LOW]))
      | Some g \<Rightarrow> (Inr (map (cycle_value env self t) [0..<num_of_HX711s self]),
                 extend (readRaw_warn env self w)
                   (data_pulses env self t @ [Output (PD_SCK_pin self) LOW] @
                    gain_calls self (nat g))))"
proof -
  have len: "length (replicate (num_of_HX711s self) (0::int)) = num_of_HX711s self" by simp
  have vals: "map (\<lambda>i. replicate (num_of_HX711s self) (0::int) ! i * 2 ^ 24 +
                 (\<Sum>k<24. level_val (pin_level env self t k i) * 2 ^ (24 - 1 - k)))
               [0..<num_of_HX711s self]
      = map (cycle_value env self t) [0..<num_of_HX711s self]"
    by (rule map_cong [OF refl]) (simp add: cycle_value_def)
  show ?thesis
    unfolding readRaw_def Let_def clock_bits_closed [OF len assms] vals
    by (simp add: gain_pulses_closed decode_loop_id GPIO_output_def GPIO_call_extend
        data_pulses_def gain_calls_def split: option.split)
qed

lemma isReady_pins_debug: "fst (isReady_pins env True ps w) = True"
  by (induction ps arbitrary: w) (simp_all add: GPIO_input_def Let_def)

lemma isReady_pins_no_debug:
  "length (gpio w) = t \<Longrightarrow>
   fst (isReady_pins env False ps w) = (\<forall>i<length ps. env (t + i) (ps ! i) = LOW)"
proof (induction ps arbitrary: w t)
  case Nil
  then show ?case by simp
next
  case (Cons p ps)
  have t1: "length (gpio (extend w [Input p (env t p)])) = Suc t"
    using Cons.prems by simp
  have "(\<forall>i<length (p # ps). env (t + i) ((p # ps) ! i) = LOW) =
        (env t p = LOW \<and> (\<forall>i<length ps. env (Suc t + i) (ps ! i) = LOW))"
    by (auto simp: All_less_Suc2 simp del: upt_Suc)
  then show ?case
    using Cons.IH [OF t1] Cons.prems
    by (cases "env t p") (simp_all add: GPIO_input_def GPIO_call_extend Let_def)
qed

lemma isReady_pins_all_low:
  "length (gpio w) = t \<Longrightarrow> \<forall>i<length ps. env (t + i) (ps ! i) = LOW \<Longrightarrow>
   isReady_pins env debug ps w = (True, extend w (map (\<lambda>p. Input p LOW) ps))"
proof (induction ps arbitrary: w t)
  case Nil
  then show ?case by simp
next
  case (Cons p ps)
  have t1: "length (gpio (extend w [Input p LOW])) = Suc t"
    using Cons.prems by simp
  from Cons.prems(2) have p: "env t p = LOW"
    and rest: "\<forall>i<length ps. env (Suc t + i) (ps ! i) = LOW"
    by (auto simp: All_less_Suc2)
  show ?case
    using Cons.IH [OF t1 rest] Cons.prems(1) p
    by (simp add: GPIO_input_def GPIO_call_extend Let_def)
qed


lemma readRaw_warn_no_debug: "\<not> debug_enabled self \<Longrightarrow> readRaw_warn env self w = w"
  by (simp add: readRaw_warn_def)


lemma length_data_pulses: "length (data_pulses env self t) = 24 * (num_of_HX711s self + 2)"
  by (simp add: data_pulses_def data_pulse_def length_concat comp_def sum_list_triv del: upt_Suc)

lemma length_gain_calls: "length (gain_calls self g) = 2 * g"
  by (simp add: gain_calls_def length_concat sum_list_replicate)

lemma tare_collect_done:
  "\<not> int (length samples) < n \<Longrightarrow> tare_collect env self n samples w = Some (Inr samples, w)"
  by (subst tare_collect.simps) simp

lemma tare_collect_step:
  "int (length samples) < n \<Longrightarrow> isReady env self w = (True, w1) \<Longrightarrow>
   readRaw env self w1 = (Inr r, w2) \<Longrightarrow>
   tare_collect env self n samples w = tare_collect env self n (samples @ [r]) w2"
  by (subst tare_collect.simps) simp



lemma tare_collect_ready:
  assumes nd: "\<not> debug_enabled self" and g: "gain self = Some g"
  shows "length (gpio w) = t \<Longrightarrow> int (length samples) + int m = n \<Longrightarrow>
    (\<forall>j<m. \<forall>i<num_of_HX711s self. env (t + j * poll_period self (nat g) + i) (DOUT_pins self ! i) = LOW) \<Longrightarrow>
    \<exists>w'. tare_collect env self n samples w =
       Some (Inr (samples @ map (\<lambda>j. map (cycle_value env self (t + j * poll_period self (nat g) + num_of_HX711s self))
                                   [0..<num_of_HX711s self]) [0..<m]), w') \<and>
         length (gpio w') = t + m * poll_period self (nat g) \<and> console w' = console w"
proof (induction m arbitrary: samples w t)
  case 0
  then show ?case by (simp add: tare_collect_done)
next
  case (Suc m)
  let ?N = "num_of_HX711s self"
  let ?P = "poll_period self (nat g)"
  let ?w1 = "extend w (map (\<lambda>p. Input p LOW) (DOUT_pins self))"
  let ?r = "map (cycle_value env self (t + ?N)) [0..<?N]"
  let ?w2 = "extend ?w1 (data_pulses env self (t + ?N) @ [Output (PD_SCK_pin self) LOW] @ gain_calls self (nat g))"
  have low0: "\<forall>i<length (DOUT_pins self). env (t + i) (DOUT_pins self ! i) = LOW"
    using Suc.prems(3) by (auto simp: num_of_HX711s_def dest: spec [of _ 0])
  have ready: "isReady env self w = (True, ?w1)"
    unfolding isReady_def by (rule isReady_pins_all_low [OF Suc.prems(1) low0])
  have t1: "length (gpio (readRaw_warn env self ?w1)) = t + ?N"
    using Suc.prems(1) nd by (simp add: readRaw_warn_no_debug num_of_HX711s_def)
  have raw: "readRaw env self ?w1 = (Inr ?r, ?w2)"
    using nd g by (simp add: readRaw_closed [OF t1] readRaw_warn_no_debug)
  have more: "int (length samples) < n" using Suc.prems(2) by simp
  have t2: "length (gpio ?w2) = t + ?P"
    using Suc.prems(1)
    by (simp add: length_data_pulses length_gain_calls poll_period_def num_of_HX711s_def)
  have n2: "int (length (samples @ [?r])) + int m = n" using Suc.prems(2) by simp
  have low2: "\<forall>j<m. \<forall>i<?N. env (t + ?P + j * ?P + i) (DOUT_pins self ! i) = LOW"
  proof (intro allI impI)
    fix j i assume "j < m" "i < ?N"
    then have "env (t + Suc j * ?P + i) (DOUT_pins self ! i) = LOW"
      using Suc.prems(3) by auto
    then show "env (t + ?P + j * ?P + i) (DOUT_pins self ! i) = LOW"
      by (simp add: add.assoc)
  qed
  from Suc.IH [OF t2 n2 low2] obtain w' where
    w': "tare_collect env self n (samples @ [?r]) ?w2 =
         Some (Inr ((samples @ [?r]) @ map (\<lambda>j. map (cycle_value env self (t + ?P + j * ?P + ?N)) [0..<?N]) [0..<m]), w')"
      "length (gpio w') = t + ?P + m * ?P" "console w' = console ?w2"
    by blast
  have rows: "(samples @ [?r]) @ map (\<lambda>j. map (cycle_value env self (t + ?P + j * ?P + ?N)) [0..<?N]) [0..<m]
      = samples @ map (\<lambda>j. map (cycle_value env self (t + j * ?P + ?N)) [0..<?N]) [0..<Suc m]"
    by (simp add: upt_conv_Cons map_Suc_upt [symmetric] comp_def add.assoc del: upt_Suc)
  show ?case
    unfolding tare_collect_step [OF more ready raw] using w' rows
    by (intro exI [of _ w']) simp
qed

section \<open>Facts about the floats and the statistics\<close>

declare odd_part.simps [simp del]

lemma odd_part_le: "odd_part n \<le> n"
proof (induction n rule: odd_part.induct)
  case (1 n)
  show ?case
  proof (cases "n = 0 \<or> odd n")
    case True
    then show ?thesis by (subst odd_part.simps) simp
  next
    case False
    with 1 have "odd_part (n div 2) \<le> n div 2" by simp
    with False show ?thesis by (subst odd_part.simps) simp
  qed
qed

lemma odd_part_double: "odd_part (2 * n) = odd_part n"
proof (cases "n = 0")
  case True
  then show ?thesis by simp
next
  case False
  then show ?thesis by (subst odd_part.simps) simp
qed

lemma odd_part_pow: "odd_part (n * 2 ^ k) = odd_part n"
proof (induction k)
  case 0
  then show ?case by simp
next
  case (Suc k)
  have "n * 2 ^ Suc k = 2 * (n * 2 ^ k)" by simp
  then show ?case using Suc by (simp only: odd_part_double)
qed

lemma scale_pow: "j \<le> E \<Longrightarrow> (x::real) / 2 ^ j * 2 ^ E = x * 2 ^ (E - j)"
  by (simp add: power_diff)

lemma is_f64_dyadic:
  assumes "\<bar>i\<bar> < 2 ^ 53" and "j \<le> 1074"
  shows "is_f64 (real_of_int i / 2 ^ j)"
proof -
  let ?z = "i * 2 ^ (1074 - j)"
  have y: "real_of_int i / 2 ^ j * 2 ^ 1074 = real_of_int ?z"
    by (simp only: scale_pow [OF assms(2)] of_int_mult of_int_power of_int_numeral)
  have fl: "\<lfloor>real_of_int ?z\<rfloor> = ?z" by (rule floor_of_int)
  have "\<bar>?z\<bar> = \<bar>i\<bar> * 2 ^ (1074 - j)" by (simp add: abs_mult)
  also have "\<dots> < 2 ^ 53 * 2 ^ (1074 - j)" using assms(1) by simp
  also have "\<dots> = 2 ^ (53 + (1074 - j))" by (simp add: power_add)
  also have "\<dots> \<le> (2::int) ^ 2098" by (rule power_increasing) simp_all
  finally have b: "\<bar>?z\<bar> < 2 ^ 2098" .
  then have b': "\<bar>real_of_int ?z\<bar> < 2 ^ 2098"
    by (metis of_int_abs of_int_less_numeral_power_cancel_iff)
  have "nat \<bar>?z\<bar> = nat \<bar>i\<bar> * 2 ^ (1074 - j)"
    by (simp add: abs_mult nat_mult_distrib nat_power_eq)
  then have "odd_part (nat \<bar>?z\<bar>) = odd_part (nat \<bar>i\<bar>)" by (simp only: odd_part_pow)
  also have "\<dots> \<le> nat \<bar>i\<bar>" by (rule odd_part_le)
  also have "\<dots> < 2 ^ 53" using assms(1) by (simp add: nat_less_iff)
  finally have o: "odd_part (nat \<bar>?z\<bar>) < 2 ^ 53" .
  show ?thesis
    unfolding is_f64_def Let_def y fl using b' o by simp
qed

lemma is_f64_int: "\<bar>i\<bar> < 2 ^ 53 \<Longrightarrow> is_f64 (real_of_int i)"
  using is_f64_dyadic [of i 0] by simp

lemma is_f64_0 [simp]: "is_f64 0"
  using is_f64_int [of 0] by simp

lemma is_f64_half: "\<bar>i\<bar> < 2 ^ 53 \<Longrightarrow> is_f64 (real_of_int i / 2)"
  using is_f64_dyadic [of i 1] by simp


lemma mask_select_map:
  "mask_select xs (map P xs) =
     (if list_all (\<lambda>x. P x \<noteq> None) xs then Some (filter (\<lambda>x. P x = Some True) xs) else None)"
proof -
  have "map fst (filter (\<lambda>(x, b). b = Some True) (zip xs (map P xs))) = filter (\<lambda>x. P x = Some True) xs"
    by (induction xs) simp_all
  moreover have "list_all (\<lambda>b. b \<noteq> None) (map P xs) = list_all (\<lambda>x. P x \<noteq> None) xs"
    by (induction xs) simp_all
  ultimately show ?thesis by (simp add: mask_select_def)
qed

lemma clean_data_rows: "clean_data d samples = map (retained d) samples"
proof (rule nth_equalityI)
  show "length (clean_data d samples) = length (map (retained d) samples)"
    by (simp add: clean_data_def)
next
  fix i assume "i < length (clean_data d samples)"
  then have i: "i < length samples" by (simp add: clean_data_def)
  then have "no_outliers d samples ! i =
      map (\<lambda>x. fle (fdist x (np_mean (samples ! i))) (fmul d (np_std (samples ! i)))) (samples ! i)"
    by (simp add: no_outliers_def dists_from_means_def means_of_def std_devs_of_def comp_def)
  with i show "clean_data d samples ! i = map (retained d) samples ! i"
    by (simp add: clean_data_def retained_def)
qed

lemma tare_closed:
  assumes "100 \<le> n" and "tare_collect env self n [] w = Some (Inr collected, w1)"
  shows "tare env self n d w =
     Some (Inr True, self\<lparr>offsets := map (\<lambda>row. np_average (retained d row)) (np_T collected)\<rparr>,
       (if debug_enabled self
        then py_print (Offsets_line (map (\<lambda>row. np_average (retained d row)) (np_T collected)))
               (py_print (Line ''Tared, offsets:'') w1)
        else w1))"
  using assms by (simp add: tare_def clean_data_rows Let_def comp_def)



lemma np_mean_NaN: "np_mean xs = NaN \<Longrightarrow> xs = []"
  by (auto simp: np_mean_def rnd_def split: if_splits)



lemma np_std_empty: "np_std [] = NaN"
  by (simp add: np_std_def np_mean_def)





lemma fle_F_Some: "fle (F a) t = Some b \<Longrightarrow> t = F c \<Longrightarrow> b = (a \<le> c)"
  by simp



lemma const_row:
  assumes "row \<noteq> []" and "\<forall>v\<in>set row. v = V" and "int (length row) * \<bar>V\<bar> < 2 ^ 53"
  shows "np_mean row = F (real_of_int V)" and "np_std row = F 0"
    and "retained (F x) row = Some row"
proof -
  have rep: "replicate (length row) V = row"
    using assms(2) by (rule replicate_length_same)
  have n: "0 < length row" using assms(1) by simp
  have s: "sum_list row = int (length row) * V"
    by (metis rep sum_list_replicate)
  have "map abs row = replicate (length row) \<bar>V\<bar>"
    by (metis rep map_replicate)
  then have sa: "sum_list (map abs row) = int (length row) * \<bar>V\<bar>"
    by (simp add: sum_list_replicate)
  have "1 * \<bar>V\<bar> \<le> int (length row) * \<bar>V\<bar>"
    using n by (intro mult_right_mono) (simp_all add: Suc_le_eq)
  with assms(3) have V: "\<bar>V\<bar> < 2 ^ 53" by simp
  have q: "real_of_int (int (length row) * V) / real (length row) = real_of_int V"
    using n by simp
  show m: "np_mean row = F (real_of_int V)"
    using assms(1,3) is_f64_int [OF V] by (simp add: np_mean_def sa s q rnd_def)
  have sq: "map (\<lambda>x. (real_of_int x - real_of_int V)\<^sup>2) row = map (\<lambda>x. 0) row"
    using assms(2) by (intro map_cong) simp_all
  have dv: "list_all (\<lambda>x. is_f64 (real_of_int x - real_of_int V)) row"
    unfolding list_all_iff
  proof
    fix x assume "x \<in> set row"
    with assms(2) have "x = V" by blast
    then show "is_f64 (real_of_int x - real_of_int V)" by simp
  qed
  have sqall: "list_all (\<lambda>y. is_f64 y \<and> y = of_int \<lfloor>y\<rfloor>) (map (\<lambda>x. 0::real) row)"
    by (simp add: list_all_iff)
  show sd: "np_std row = F 0"
    by (simp only: np_std_def m f64.case Let_def sq) (simp add: dv sqall rnd_def del: list.pred_map)
  let ?P = "\<lambda>v. fle (fdist v (np_mean row)) (fmul (F x) (np_std row))"
  have P: "\<forall>v\<in>set row. ?P v = Some True"
  proof
    fix v assume "v \<in> set row"
    with assms(2) have "v = V" by blast
    with V show "?P v = Some True" by (simp add: m sd fdist_def of_int64_def)
  qed
  then have "list_all (\<lambda>v. ?P v \<noteq> None) row" unfolding list_all_iff by auto
  moreover from P have "filter (\<lambda>v. ?P v = Some True) row = row" by (rule filter_True)
  ultimately show "retained (F x) row = Some row"
    by (simp only: retained_def mask_select_map if_True)
qed


section \<open>What the methods never do\<close>

text \<open>
  General facts behind the defects recorded below: \<^verbatim>\<open>read\<close> never returns
  \<^verbatim>\<open>False\<close>, \<^verbatim>\<open>readRaw\<close> never returns a negative value and raises nothing but
  \<^verbatim>\<open>TypeError\<close>, \<^verbatim>\<open>isReady\<close> looks at the pins only without debug, and \<^verbatim>\<open>tare\<close>
  never reaches the branch of its validity test.
\<close>

lemma read_never_False: "fst (read env self w) \<noteq> Inr RFalse"
  by (simp add: read_def list_eq_False_def split: prod.split sum.split)

lemma level_val_nonneg: "0 \<le> level_val l"
  by (cases l) simp_all

lemma cycle_value_nonneg: "0 \<le> cycle_value env self t i"
  unfolding cycle_value_def by (intro sum_nonneg mult_nonneg_nonneg level_val_nonneg) simp

lemma readRaw_nonneg:
  assumes "fst (readRaw env self w) = Inr rs"
  shows "\<forall>r\<in>set rs. 0 \<le> r"
proof (cases "gain self")
  case None
  with assms show ?thesis by (simp add: readRaw_closed [OF refl])
next
  case (Some g)
  with assms have "rs = map (cycle_value env self (length (gpio (readRaw_warn env self w)))) [0..<num_of_HX711s self]"
    by (simp add: readRaw_closed [OF refl])
  then show ?thesis by (simp add: cycle_value_nonneg)
qed

lemma readRaw_error: "fst (readRaw env self w) = Inl e \<Longrightarrow> e = TypeError"
  by (cases "gain self") (simp_all add: readRaw_closed [OF refl])

lemma isReady_no_debug:
  "\<not> debug_enabled self \<Longrightarrow>
   fst (isReady env self w) =
     (\<forall>i<num_of_HX711s self. env (length (gpio w) + i) (DOUT_pins self ! i) = LOW)"
  by (simp add: isReady_def isReady_pins_no_debug [OF refl] num_of_HX711s_def)

lemma isReady_debug: "debug_enabled self \<Longrightarrow> fst (isReady env self w) = True"
  by (simp add: isReady_def isReady_pins_debug)


lemma tare_collect_error_aux:
  assumes "tare_collect env self n samples w = Some y"
  shows "\<forall>e w'. y = (Inl e, w') \<longrightarrow> e = TypeError"
proof (rule tare_collect.raw_induct [OF _ assms], goal_cases)
  case (1 tc env self n samples w y)
  show ?case
  proof (cases "int (length samples) < n")
    case False
    with 1(2) show ?thesis by auto
  next
    case more: True
    show ?thesis
    proof (cases "fst (isReady env self w)")
      case False
      with more 1(2) have "tc env self n samples (snd (isReady env self w)) = Some y" by simp
      from 1(1) [OF this] show ?thesis .
    next
      case True
      show ?thesis
      proof (cases "fst (readRaw env self (snd (isReady env self w)))")
        case (Inl e)
        with True more 1(2) readRaw_error [OF Inl] show ?thesis by auto
      next
        case (Inr r)
        with True more 1(2)
        have "tc env self n (samples @ [r]) (snd (readRaw env self (snd (isReady env self w)))) = Some y"
          by simp
        from 1(1) [OF this] show ?thesis .
      qed
    qed
  qed
qed

lemma tare_never_NameError: "tare env self n d w \<noteq> Some (Inl NameError, self', w')"
proof (cases "n < 100")
  case True
  then show ?thesis by (simp add: tare_def)
next
  case False
  show ?thesis
  proof (cases "tare_collect env self n [] w")
    case None
    with False show ?thesis by (simp add: tare_def)
  next
    case (Some r)
    obtain res w1 where r: "r = (res, w1)" by (cases r)
    show ?thesis
    proof (cases res)
      case (Inl e)
      from tare_collect_error_aux [OF Some] r Inl have "e = TypeError" by simp
      with False Some r Inl show ?thesis by (simp add: tare_def)
    next
      case (Inr collected)
      from False have "100 \<le> n" by simp
      from tare_closed [OF this Some [unfolded r Inr]] show ?thesis by simp
    qed
  qed
qed


section \<open>The polling loop\<close>

text \<open>
  Every reading is a 24-bit value, and the loop of \<open>tare\<close> polls again after a poll
  that found a converter busy: under a schedule \<open>ready_from\<close> it returns its samples.
\<close>

lemma cycle_value_const:
  assumes "\<forall>k<24. pin_level env self t k i = l"
  shows "cycle_value env self t i = level_val l * 16777215"
proof -
  have "cycle_value env self t i = (\<Sum>k<24. level_val l * 2 ^ (23 - k))"
    unfolding cycle_value_def using assms by (intro sum.cong refl) simp
  also have "\<dots> = level_val l * 16777215"
    by (simp add: lessThan_nat_numeral)
  finally show ?thesis .
qed







lemma isReady_busy:
  assumes "\<not> debug_enabled self" and "DOUT_pins self \<noteq> []"
    and "env (length (gpio w)) (hd (DOUT_pins self)) = HIGH"
  shows "isReady env self w = (False, extend w [Input (hd (DOUT_pins self)) HIGH])"
  using assms by (cases "DOUT_pins self") (simp_all add: isReady_def GPIO_input_def GPIO_call_extend Let_def)



section \<open>The test bench\<close>

lemma init_closed:
  "init data_pins clock_pin g debug w =
     Inr (\<lparr>PD_SCK_pin = clock_pin, DOUT_pins = data_pins,
            gain = (if g = 128 then Some 1 else if g = 64 then Some 3 else None),
            debug_enabled = debug, offsets = [], timeout = 300\<rparr>,
          GPIO_output clock_pin LOW
            ((if g \<noteq> 128 \<and> g \<noteq> 64 \<and> debug
              then py_print (Line ''Invalid gain used. Pass values of 128 or 64 only!'')
              else id)
               (setup_inputs data_pins
                 (extend w [Setwarnings False, Setmode_BCM, Setup clock_pin OUT]))))"
  by (simp add: init_def setGain_def powerUp_def GPIO_call_extend Let_def)

lemma console_setup_inputs: "console (setup_inputs pins w) = console w"
  by (induction pins arbitrary: w) (simp_all add: GPIO_call_def)

lemma bench_eq:
  "bench = (\<lparr>PD_SCK_pin = 6, DOUT_pins = [5], gain = Some 1, debug_enabled = False,
              offsets = [], timeout = 300\<rparr>,
            \<lparr>gpio = [Setwarnings False, Setmode_BCM, Setup 6 OUT, Setup 5 IN, Output 6 LOW],
              console = []\<rparr>)"
  by (simp add: bench_def init_closed power_on_def GPIO_output_def GPIO_call_def extend_def)

lemma bench_debug_eq:
  "bench_debug = (\<lparr>PD_SCK_pin = 6, DOUT_pins = [5], gain = Some 1, debug_enabled = True,
              offsets = [], timeout = 300\<rparr>,
            \<lparr>gpio = [Setwarnings False, Setmode_BCM, Setup 6 OUT, Setup 5 IN, Output 6 LOW],
              console = []\<rparr>)"
  by (simp add: bench_debug_def init_closed power_on_def GPIO_output_def GPIO_call_def extend_def)

lemma hx711_signal_poll: "hx711_signal v (5 + j * 76) pin = LOW"
proof (cases j)
  case 0
  then show ?thesis by (simp add: hx711_signal_def)
next
  case (Suc m)
  have "(5 + Suc m * 76 - 8) mod 76 = 73"
  proof -
    have "5 + Suc m * 76 - 8 = 73 + m * 76" by simp
    then show ?thesis by simp
  qed
  then show ?thesis by (simp add: hx711_signal_def Suc)
qed

lemma hx711_signal_bit:
  assumes "k < 24"
  shows "hx711_signal v (5 + j * 76 + 1 + k * 3 + 2) pin = (if bit (v j) (23 - k) then HIGH else LOW)"
proof -
  have e: "5 + j * 76 + 1 + k * 3 + 2 - 8 = k * 3 + j * 76" by simp
  have m: "(k * 3 + j * 76) mod 76 = k * 3" using assms by simp
  have d: "(k * 3 + j * 76) div 76 = j" using assms by simp
  show ?thesis
    unfolding hx711_signal_def e m d using assms by simp
qed

lemma bits_value:
  "(\<Sum>k<24. level_val (if bit (x::int) (23 - k) then HIGH else LOW) * 2 ^ (23 - k)) = take_bit 24 x"
proof -
  let ?g = "\<lambda>m. level_val (if bit x m then HIGH else LOW) * 2 ^ m"
  have "(\<Sum>k<24. ?g (23 - k)) = (\<Sum>k<24. ?g (24 - Suc k))" by simp
  also have "\<dots> = (\<Sum>k<24. ?g k)" by (rule sum.nat_diff_reindex)
  also have "\<dots> = (\<Sum>k = 0..<24. push_bit k (of_bool (bit x k)))"
    by (intro sum.cong) (auto simp: push_bit_eq_mult)
  also have "\<dots> = take_bit 24 x" by (rule take_bit_sum [symmetric])
  finally show ?thesis .
qed

lemma bench_cycle_value:
  "cycle_value (hx711_signal v) (fst bench) (5 + j * 76 + 1) 0 = take_bit 24 (v j)"
proof -
  have "(\<Sum>k<24. level_val (pin_level (hx711_signal v) (fst bench) (5 + j * 76 + 1) k 0) * 2 ^ (23 - k))
      = (\<Sum>k<24. level_val (if bit (v j) (23 - k) then HIGH else LOW) * 2 ^ (23 - k))"
  proof (intro sum.cong refl)
    fix k :: nat assume "k \<in> {..<24}"
    then have k: "k < 24" by simp
    have "pin_level (hx711_signal v) (fst bench) (5 + j * 76 + 1) k 0
        = hx711_signal v (5 + j * 76 + 1 + k * 3 + 2) 5"
      by (simp add: pin_level_def bench_eq num_of_HX711s_def ac_simps)
    then show "level_val (pin_level (hx711_signal v) (fst bench) (5 + j * 76 + 1) k 0) * 2 ^ (23 - k)
        = level_val (if bit (v j) (23 - k) then HIGH else LOW) * 2 ^ (23 - k)"
      by (simp only: hx711_signal_bit [OF k])
  qed
  then show ?thesis by (simp only: cycle_value_def bits_value)
qed

lemma bench_period: "poll_period (fst bench) (nat 1) = 76"
  by (simp add: poll_period_def bench_eq num_of_HX711s_def)

lemma bench_collect:
  assumes "0 \<le> n"
  shows "\<exists>w'. tare_collect (hx711_signal v) (fst bench) n [] (snd bench) =
           Some (Inr (map (\<lambda>j. [take_bit 24 (v j)]) [0..<nat n]), w') \<and>
         length (gpio w') = 5 + nat n * 76 \<and> console w' = []"
proof -
  have nd: "\<not> debug_enabled (fst bench)" and g: "gain (fst bench) = Some 1"
    and t: "length (gpio (snd bench)) = 5"
    by (simp_all add: bench_eq)
  have n: "int (length ([] :: int list list)) + int (nat n) = n" using assms by simp
  have low: "\<forall>j<nat n. \<forall>i<num_of_HX711s (fst bench).
      hx711_signal v (5 + j * poll_period (fst bench) (nat 1) + i) (DOUT_pins (fst bench) ! i) = LOW"
    unfolding bench_period by (simp add: num_of_HX711s_def bench_eq hx711_signal_poll)
  have rows: "map (\<lambda>j. map (cycle_value (hx711_signal v) (fst bench)
                 (5 + j * 76 + num_of_HX711s (fst bench)))
                 [0..<num_of_HX711s (fst bench)]) [0..<nat n]
      = map (\<lambda>j. [take_bit 24 (v j)]) [0..<nat n]"
  proof (rule map_cong [OF refl])
    fix j
    have N: "num_of_HX711s (fst bench) = 1" by (simp add: num_of_HX711s_def bench_eq)
    show "map (cycle_value (hx711_signal v) (fst bench)
                 (5 + j * 76 + num_of_HX711s (fst bench)))
                 [0..<num_of_HX711s (fst bench)] = [take_bit 24 (v j)]"
      unfolding N using bench_cycle_value [of v j] by simp
  qed
  from tare_collect_ready [OF nd g t n low] show ?thesis
    by (simp only: bench_period rows) (simp add: bench_eq)
qed

lemma np_T_single: "rows \<noteq> [] \<Longrightarrow> np_T (map (\<lambda>x. [x]) rows) = [rows]"
  by (cases rows) (simp_all add: np_T_def comp_def map_idI)

lemma pattern_small: "take_bit 24 ([0, 1, 2, 1 :: int] ! (j mod 4)) = [0, 1, 2, 1] ! (j mod 4)"
proof -
  have "j mod 4 = 0 \<or> j mod 4 = 1 \<or> j mod 4 = 2 \<or> j mod 4 = 3" by arith
  then show ?thesis by (elim disjE) (simp_all add: take_bit_eq_mod)
qed

section \<open>More on the statistics\<close>

text \<open>
  A row whose mean is an integer and whose squared differences add up to less than
  \<open>2 ^ 53\<close>: the mean is exact, and so is the variance before its division.
\<close>

lemma member_le_sum_list_int:
  fixes ys :: "int list"
  assumes "\<forall>y\<in>set ys. 0 \<le> y" and "y \<in> set ys"
  shows "y \<le> sum_list ys"
  using assms
proof (induction ys)
  case Nil
  then show ?case by simp
next
  case (Cons a ys)
  have "0 \<le> sum_list ys" using Cons.prems(1) by (intro sum_list_nonneg) simp
  with Cons show ?case by auto
qed

lemma sum_list_sq_of_int:
  "(\<Sum>x\<leftarrow>xs. (real_of_int x - real_of_int m)\<^sup>2) = real_of_int (\<Sum>x\<leftarrow>xs. (x - m)\<^sup>2)"
  by (induction xs) simp_all

lemma abs_le_square: "\<bar>k\<bar> \<le> k\<^sup>2" for k :: int
proof (cases "k = 0")
  case True
  then show ?thesis by simp
next
  case False
  then have "1 \<le> \<bar>k\<bar>" by simp
  then have "\<bar>k\<bar> * 1 \<le> \<bar>k\<bar> * \<bar>k\<bar>" by (intro mult_left_mono) simp_all
  then show ?thesis by (simp add: power2_eq_square abs_mult [symmetric] del: abs_mult_self_eq)
qed

lemma np_stats_integral:
  assumes ne: "row \<noteq> []" and ab: "sum_list (map abs row) < 2 ^ 53"
    and mean: "sum_list row = int (length row) * m"
    and sq: "sum_list (map (\<lambda>x. (x - m)\<^sup>2) row) = S" and S: "S < 2 ^ 53"
  shows "np_mean row = F (real_of_int m)"
    and "np_std row =
      (if is_f64 (real_of_int S / real (length row))
       then rnd (sqrt (real_of_int S / real (length row))) else Rounded)"
proof -
  have n: "0 < length row" using ne by simp
  have "\<bar>sum_list row\<bar> \<le> sum_list (map abs row)" by (rule sum_list_abs)
  with ab have "\<bar>int (length row) * m\<bar> < 2 ^ 53" by (simp add: mean)
  moreover have "1 * \<bar>m\<bar> \<le> int (length row) * \<bar>m\<bar>"
    using n by (intro mult_right_mono) (simp_all add: Suc_le_eq)
  ultimately have m: "\<bar>m\<bar> < 2 ^ 53" by (simp add: abs_mult)
  have q: "real_of_int (int (length row) * m) / real (length row) = real_of_int m"
    using n by simp
  show M: "np_mean row = F (real_of_int m)"
    using ne ab is_f64_int [OF m] by (simp add: np_mean_def mean q rnd_def)
  have small: "(x - m)\<^sup>2 < 2 ^ 53" if "x \<in> set row" for x
  proof -
    have "(x - m)\<^sup>2 \<in> set (map (\<lambda>x. (x - m)\<^sup>2) row)" using that by simp
    then have "(x - m)\<^sup>2 \<le> sum_list (map (\<lambda>x. (x - m)\<^sup>2) row)"
      by (intro member_le_sum_list_int) auto
    with sq S show ?thesis by simp
  qed
  have dv: "list_all (\<lambda>x. is_f64 (real_of_int x - real_of_int m)) row"
    unfolding list_all_iff
  proof
    fix x assume x: "x \<in> set row"
    have "\<bar>x - m\<bar> \<le> (x - m)\<^sup>2" by (rule abs_le_square)
    with small [OF x] have "\<bar>x - m\<bar> < 2 ^ 53" by simp
    from is_f64_int [OF this] show "is_f64 (real_of_int x - real_of_int m)" by simp
  qed
  have sqs: "list_all (\<lambda>y. is_f64 y \<and> y = of_int \<lfloor>y\<rfloor>) (map (\<lambda>x. (real_of_int x - real_of_int m)\<^sup>2) row)"
    unfolding list_all_iff
  proof
    fix y assume "y \<in> set (map (\<lambda>x. (real_of_int x - real_of_int m)\<^sup>2) row)"
    then obtain x where x: "x \<in> set row" and y: "y = real_of_int ((x - m)\<^sup>2)" by auto
    have "\<bar>(x - m)\<^sup>2\<bar> < 2 ^ 53" using small [OF x] by simp
    from is_f64_int [OF this] show "is_f64 y \<and> y = of_int \<lfloor>y\<rfloor>" by (simp add: y)
  qed
  have sm: "(\<Sum>x\<leftarrow>row. (real_of_int x - real_of_int m)\<^sup>2) = real_of_int S"
    by (simp only: sum_list_sq_of_int sq)
  have lt: "real_of_int S < 2 ^ 53" using S by (metis of_int_less_numeral_power_cancel_iff)
  show "np_std row =
      (if is_f64 (real_of_int S / real (length row))
       then rnd (sqrt (real_of_int S / real (length row))) else Rounded)"
    by (simp only: np_std_def M f64.case Let_def dv sqs sm lt simp_thms if_True)
qed

lemma rnd_cases: "rnd x = F x \<or> rnd x = Rounded"
  by (simp add: rnd_def)

lemma fmul_zero: "s = F b \<or> s = Rounded \<Longrightarrow> fmul (F 0) s = F 0"
  by auto

lemma fdist_int:
  assumes "\<bar>v\<bar> < 2 ^ 53" and "\<bar>v - m\<bar> < 2 ^ 53"
  shows "fdist v (F (real_of_int m)) = F (real_of_int \<bar>v - m\<bar>)"
proof -
  have "is_f64 (real_of_int (v - m))" by (rule is_f64_int [OF assms(2)])
  then have "is_f64 (real_of_int v - real_of_int m)" by simp
  then show ?thesis using assms(1) by (simp add: fdist_def of_int64_def)
qed

lemma retained_int:
  assumes m: "np_mean row = F (real_of_int m)" and t: "fmul d (np_std row) = F t"
    and b: "\<forall>v\<in>set row. \<bar>v\<bar> < 2 ^ 53 \<and> \<bar>v - m\<bar> < 2 ^ 53"
  shows "retained d row = Some (filter (\<lambda>v. real_of_int \<bar>v - m\<bar> \<le> t) row)"
proof -
  have dec: "fle (fdist v (np_mean row)) (fmul d (np_std row)) = Some (real_of_int \<bar>v - m\<bar> \<le> t)"
    if "v \<in> set row" for v
  proof -
    from b that have "\<bar>v\<bar> < 2 ^ 53" and "\<bar>v - m\<bar> < 2 ^ 53" by simp_all
    from fdist_int [OF this] show ?thesis by (simp only: m t fle.simps)
  qed
  have all: "list_all (\<lambda>v. fle (fdist v (np_mean row)) (fmul d (np_std row)) \<noteq> None) row"
    unfolding list_all_iff using dec by simp
  have "filter (\<lambda>v. fle (fdist v (np_mean row)) (fmul d (np_std row)) = Some True) row
      = filter (\<lambda>v. real_of_int \<bar>v - m\<bar> \<le> t) row"
    by (rule filter_cong [OF refl]) (simp add: dec)
  then show ?thesis
    by (simp only: retained_def mask_select_map all if_True)
qed





section \<open>More on the polling loop\<close>


text \<open>While the first converter stays busy, the loop polls for ever.\<close>

lemma tare_collect_never_ready_aux:
  assumes "tare_collect env self n samples w = Some y"
  shows "\<not> (\<not> debug_enabled self \<and> DOUT_pins self \<noteq> [] \<and>
            (\<forall>t. env t (hd (DOUT_pins self)) = HIGH) \<and> int (length samples) < n)"
proof (rule tare_collect.raw_induct [OF _ assms], goal_cases)
  case (1 tc env self n samples w y)
  show ?case
  proof
    assume a: "\<not> debug_enabled self \<and> DOUT_pins self \<noteq> [] \<and>
            (\<forall>t. env t (hd (DOUT_pins self)) = HIGH) \<and> int (length samples) < n"
    then have nd: "\<not> debug_enabled self" and ne: "DOUT_pins self \<noteq> []"
      and hi: "env (length (gpio w)) (hd (DOUT_pins self)) = HIGH" by simp_all
    have "isReady env self w = (False, extend w [Input (hd (DOUT_pins self)) HIGH])"
      using nd ne hi by (rule isReady_busy)
    with 1(2) a have "tc env self n samples (extend w [Input (hd (DOUT_pins self)) HIGH]) = Some y"
      by simp
    from 1(1) [OF this] a show False by simp
  qed
qed

lemma tare_collect_never_ready:
  assumes "\<not> debug_enabled self" and "DOUT_pins self \<noteq> []"
    and "\<forall>t. env t (hd (DOUT_pins self)) = HIGH" and "int (length samples) < n"
  shows "tare_collect env self n samples w = None"
proof (cases "tare_collect env self n samples w")
  case (Some y)
  from tare_collect_never_ready_aux [OF this] assms show ?thesis by simp
qed simp

lemma tare_never_ready: "tare (\<lambda>t p. HIGH) (fst bench) 100 d (snd bench) = None"
proof -
  have "tare_collect (\<lambda>t p. HIGH) (fst bench) 100 [] (snd bench) = None"
    by (rule tare_collect_never_ready) (simp_all add: bench_eq)
  then show ?thesis by (simp add: tare_def)
qed

section \<open>Runs on the test bench\<close>

text \<open>Conversions 0, 1, 2, 1 repeating: half of the samples are off the mean.\<close>

lemma pattern_sum: "sum_list (map (\<lambda>j. [0, 1, 2, 1 :: int] ! (j mod 4)) [0..<100]) = 100"
  by code_simp

lemma pattern_abs: "sum_list (map abs (map (\<lambda>j. [0, 1, 2, 1 :: int] ! (j mod 4)) [0..<100])) = 100"
  by code_simp

lemma pattern_squares:
  "sum_list (map (\<lambda>x. (x - 1)\<^sup>2) (map (\<lambda>j. [0, 1, 2, 1 :: int] ! (j mod 4)) [0..<100])) = 50"
  by code_simp

lemma pattern_ones:
  "filter (\<lambda>x. x = 1) (map (\<lambda>j. [0, 1, 2, 1 :: int] ! (j mod 4)) [0..<100]) = replicate 50 1"
  by code_simp

lemma pattern_range: "v \<in> set (map (\<lambda>j. [0, 1, 2, 1 :: int] ! (j mod 4)) [0..<100]) \<Longrightarrow> v = 0 \<or> v = 1 \<or> v = 2"
proof -
  assume "v \<in> set (map (\<lambda>j. [0, 1, 2, 1 :: int] ! (j mod 4)) [0..<100])"
  then obtain j :: nat where v: "v = [0, 1, 2, 1] ! (j mod 4)" by auto
  have "j mod 4 = 0 \<or> j mod 4 = 1 \<or> j mod 4 = 2 \<or> j mod 4 = 3" by arith
  then show ?thesis unfolding v by (elim disjE) simp_all
qed

lemma pattern_retained:
  "retained (F 0) (map (\<lambda>j. [0, 1, 2, 1 :: int] ! (j mod 4)) [0..<100]) = Some (replicate 50 1)"
proof -
  let ?row = "map (\<lambda>j. [0, 1, 2, 1 :: int] ! (j mod 4)) [0..<100]"
  have ne: "?row \<noteq> []" by simp
  have ab: "sum_list (map abs ?row) < 2 ^ 53" by (simp only: pattern_abs) simp
  have mn: "sum_list ?row = int (length ?row) * 1" by (simp only: pattern_sum) simp
  have S: "(50::int) < 2 ^ 53" by simp
  note st = np_stats_integral [OF ne ab mn pattern_squares S]
  have m: "np_mean ?row = F (real_of_int 1)" by (rule st(1))
  have "np_std ?row = F (sqrt (real_of_int 50 / real (length ?row))) \<or> np_std ?row = Rounded"
    unfolding st(2) using rnd_cases [of "sqrt (real_of_int 50 / real (length ?row))"] by auto
  then have t: "fmul (F 0) (np_std ?row) = F 0" by (rule fmul_zero)
  have b: "\<forall>v\<in>set ?row. \<bar>v\<bar> < 2 ^ 53 \<and> \<bar>v - 1\<bar> < 2 ^ 53"
  proof
    fix v assume "v \<in> set ?row"
    from pattern_range [OF this] show "\<bar>v\<bar> < 2 ^ 53 \<and> \<bar>v - 1\<bar> < 2 ^ 53" by auto
  qed
  have "filter (\<lambda>v. real_of_int \<bar>v - 1\<bar> \<le> 0) ?row = filter (\<lambda>x. x = 1) ?row"
    by (rule filter_cong [OF refl]) simp
  then show ?thesis
    by (simp only: retained_int [OF m t b] pattern_ones)
qed

lemma ones_mean: "np_mean (replicate 50 (1::int)) = F 1"
  using const_row(1) [of "replicate 50 1" 1] by simp


lemma spike_sum: "sum_list (map (\<lambda>j. [0, 0, 0, 0, 5 :: int] ! (j mod 5)) [0..<100]) = 100"
  by code_simp

lemma spike_abs: "sum_list (map abs (map (\<lambda>j. [0, 0, 0, 0, 5 :: int] ! (j mod 5)) [0..<100])) = 100"
  by code_simp

lemma spike_squares:
  "sum_list (map (\<lambda>x. (x - 1)\<^sup>2) (map (\<lambda>j. [0, 0, 0, 0, 5 :: int] ! (j mod 5)) [0..<100])) = 400"
  by code_simp

lemma spike_zeros:
  "filter (\<lambda>v. \<bar>v - 1\<bar> \<le> 2) (map (\<lambda>j. [0, 0, 0, 0, 5 :: int] ! (j mod 5)) [0..<100]) = replicate 80 0"
  by code_simp

lemma spike_range: "v \<in> set (map (\<lambda>j. [0, 0, 0, 0, 5 :: int] ! (j mod 5)) [0..<100]) \<Longrightarrow> v = 0 \<or> v = 5"
proof -
  assume "v \<in> set (map (\<lambda>j. [0, 0, 0, 0, 5 :: int] ! (j mod 5)) [0..<100])"
  then obtain j :: nat where v: "v = [0, 0, 0, 0, 5] ! (j mod 5)" by auto
  have "j mod 5 = 0 \<or> j mod 5 = 1 \<or> j mod 5 = 2 \<or> j mod 5 = 3 \<or> j mod 5 = 4" by arith
  then show ?thesis unfolding v by (elim disjE) simp_all
qed

lemma spike_stats:
  "np_mean (map (\<lambda>j. [0, 0, 0, 0, 5 :: int] ! (j mod 5)) [0..<100]) = F 1"
  "np_std (map (\<lambda>j. [0, 0, 0, 0, 5 :: int] ! (j mod 5)) [0..<100]) = F 2"
  "exact_mean (map (\<lambda>j. [0, 0, 0, 0, 5 :: int] ! (j mod 5)) [0..<100]) = 1"
  "exact_std (map (\<lambda>j. [0, 0, 0, 0, 5 :: int] ! (j mod 5)) [0..<100]) = 2"
proof -
  let ?row = "map (\<lambda>j. [0, 0, 0, 0, 5 :: int] ! (j mod 5)) [0..<100]"
  have ne: "?row \<noteq> []" by simp
  have ab: "sum_list (map abs ?row) < 2 ^ 53" by (simp only: spike_abs) simp
  have mn: "sum_list ?row = int (length ?row) * 1" by (simp only: spike_sum) simp
  have S: "(400::int) < 2 ^ 53" by simp
  note st = np_stats_integral [OF ne ab mn spike_squares S]
  show m: "np_mean ?row = F 1" using st(1) by simp
  have q: "real_of_int 400 / real (length ?row) = 4" by simp
  have f4: "is_f64 4" using is_f64_int [of 4] by simp
  have f2: "is_f64 2" using is_f64_int [of 2] by simp
  show "np_std ?row = F 2"
    by (simp only: st(2) q f4 if_True real_sqrt_four rnd_def f2)
  show em: "exact_mean ?row = 1"
    by (simp only: exact_mean_def spike_sum) simp
  have "(\<Sum>x\<leftarrow>?row. (real_of_int x - real_of_int 1)\<^sup>2) = real_of_int 400"
    by (simp only: sum_list_sq_of_int spike_squares)
  then have "(\<Sum>x\<leftarrow>?row. (real_of_int x - 1)\<^sup>2) = 400" by simp
  then show "exact_std ?row = 2"
    by (simp only: exact_std_def em) simp
qed

lemma spike_retained:
  "retained (F 1) (map (\<lambda>j. [0, 0, 0, 0, 5 :: int] ! (j mod 5)) [0..<100]) = Some (replicate 80 0)"
proof -
  let ?row = "map (\<lambda>j. [0, 0, 0, 0, 5 :: int] ! (j mod 5)) [0..<100]"
  have m: "np_mean ?row = F (real_of_int 1)" by (simp add: spike_stats(1))
  have f2: "is_f64 2" using is_f64_int [of 2] by simp
  have t: "fmul (F 1) (np_std ?row) = F 2" by (simp add: spike_stats(2) f2)
  have b: "\<forall>v\<in>set ?row. \<bar>v\<bar> < 2 ^ 53 \<and> \<bar>v - 1\<bar> < 2 ^ 53"
  proof
    fix v assume "v \<in> set ?row"
    from spike_range [OF this] show "\<bar>v\<bar> < 2 ^ 53 \<and> \<bar>v - 1\<bar> < 2 ^ 53" by auto
  qed
  have "filter (\<lambda>v. real_of_int \<bar>v - 1\<bar> \<le> 2) ?row = filter (\<lambda>v. \<bar>v - 1\<bar> \<le> 2) ?row"
    by (rule filter_cong [OF refl]) linarith
  then show ?thesis
    by (simp only: retained_int [OF m t b] spike_zeros)
qed





text \<open>A converter that delivers 100 zero samples and then holds its data line high.\<close>

lemma bench_tare_then_busy:
  "\<exists>w1. tare (\<lambda>t p. if t < 7605 then LOW else HIGH) (fst bench) 100 (F 2) (snd bench) =
          Some (Inr True, (fst bench)\<lparr>offsets := [F 0]\<rparr>, w1) \<and> length (gpio w1) = 7605"
proof -
  let ?E = "\<lambda>(t::nat) (p::int). if t < 7605 then LOW else HIGH"
  have nd: "\<not> debug_enabled (fst bench)" and g: "gain (fst bench) = Some 1"
    and t: "length (gpio (snd bench)) = 5"
    by (simp_all add: bench_eq)
  have N: "num_of_HX711s (fst bench) = 1" by (simp add: num_of_HX711s_def bench_eq)
  have n: "int (length ([] :: int list list)) + int 100 = 100" by simp
  have low: "\<forall>j<100. \<forall>i<num_of_HX711s (fst bench).
      ?E (5 + j * poll_period (fst bench) (nat 1) + i) (DOUT_pins (fst bench) ! i) = LOW"
    unfolding bench_period N by auto
  have rows: "map (\<lambda>j. map (cycle_value ?E (fst bench) (5 + j * 76 + num_of_HX711s (fst bench)))
                 [0..<num_of_HX711s (fst bench)]) [0..<100]
      = replicate 100 [0]"
  proof -
    have "map (\<lambda>j. map (cycle_value ?E (fst bench) (5 + j * 76 + num_of_HX711s (fst bench)))
                 [0..<num_of_HX711s (fst bench)]) [0..<100] = map (\<lambda>j. [0]) [0..<100]"
    proof (rule map_cong [OF refl])
      fix j :: nat assume "j \<in> set [0..<100]"
      then have j: "j < 100" by simp
      have "\<forall>k<24. pin_level ?E (fst bench) (5 + j * 76 + 1) k 0 = LOW"
        using j by (auto simp: pin_level_def N)
      from cycle_value_const [OF this]
      show "map (cycle_value ?E (fst bench) (5 + j * 76 + num_of_HX711s (fst bench)))
                 [0..<num_of_HX711s (fst bench)] = [0]"
        unfolding N by simp
    qed
    then show ?thesis by (simp only: map_replicate_const length_upt) simp
  qed
  from tare_collect_ready [OF nd g t n low] obtain w1 where
    c: "tare_collect ?E (fst bench) 100 [] (snd bench) = Some (Inr (replicate 100 [0]), w1)"
    and l: "length (gpio w1) = 7605"
    by (simp only: bench_period rows) auto
  have T: "np_T (replicate 100 [0::int]) = [replicate 100 0]"
    using np_T_single [of "replicate 100 (0::int)"] by simp
  have r: "retained (F 2) (replicate 100 (0::int)) = Some (replicate 100 0)"
    by (rule const_row(3) [where V = 0]) simp_all
  have m: "np_mean (replicate 100 (0::int)) = F (real_of_int 0)"
    by (rule const_row(1)) simp_all
  have v: "np_average (retained (F 2) (replicate 100 0)) = F 0"
    by (simp add: r np_average_def m)
  have h: "(100::int) \<le> 100" by simp
  have "tare ?E (fst bench) 100 (F 2) (snd bench) =
          Some (Inr True, (fst bench)\<lparr>offsets := [F 0]\<rparr>, w1)"
    by (simp only: tare_closed [OF h c] T v list.map) (simp add: bench_eq)
  with l show ?thesis by blast
qed

section \<open>Readiness\<close>

text \<open>
  Claim C3 says that \<^verbatim>\<open>isReady\<close> is true exactly when every data pin reads low,
  whatever the debug flag. The code breaks it: with debug enabled, a pin that reads high
  is reported and skipped, and the answer is \<^verbatim>\<open>True\<close>. With the one data pin of the
  bench high, the debug instance answers \<^verbatim>\<open>True\<close> where the plain one answers
  \<^verbatim>\<open>False\<close>.
\<close>

theorem isReady_debug_ignores_high:
  "fst (isReady (\<lambda>t p. HIGH) (fst bench_debug) (snd bench_debug)) = True \<and>
   fst (isReady (\<lambda>t p. HIGH) (fst bench) (snd bench)) = False"
  by (simp add: bench_eq bench_debug_eq isReady_def GPIO_input_def Let_def)

section \<open>One protocol cycle\<close>

text \<open>
  Claim C4: with the gain set to \<open>g\<close> pulses, one call of \<^verbatim>\<open>readRaw\<close> makes, after the
  optional readiness report of debug mode, exactly 24 data pulses (clock high, clock low,
  then one read of every data pin), drives the clock low, and makes exactly \<open>g\<close> gain
  pulses with no read. The level read in pulse \<open>k\<close> (counted from 0) becomes bit
  \<open>23 - k\<close> of the channel's value, so the first pulse gives the most significant bit,
  and the vector returned has one entry per channel.
\<close>

theorem readRaw_protocol_cycle:
  assumes "gain self = Some g" and "readRaw_warn env self w = w0" and "length (gpio w0) = t"
  shows "readRaw env self w =
           (Inr (map (\<lambda>i. \<Sum>k<24. level_val (pin_level env self t k i) * 2 ^ (23 - k))
                   [0..<num_of_HX711s self]),
            extend w0
              (concat (map (data_pulse env self t) [0..<24]) @
               [Output (PD_SCK_pin self) LOW] @
               concat (replicate (nat g) [Output (PD_SCK_pin self) HIGH, Output (PD_SCK_pin self) LOW])))
         \<and> length (projr (fst (readRaw env self w))) = num_of_HX711s self"
proof -
  have t: "length (gpio (readRaw_warn env self w)) = t" using assms by simp
  have "map (cycle_value env self t) [0..<num_of_HX711s self] =
        map (\<lambda>i. \<Sum>k<24. level_val (pin_level env self t k i) * 2 ^ (23 - k)) [0..<num_of_HX711s self]"
    by (rule map_cong [OF refl]) (simp add: cycle_value_def)
  then show ?thesis
    using assms(1,2)
    by (simp add: readRaw_closed [OF t] data_pulses_def gain_calls_def del: upt_Suc)
qed

theorem readRaw_protocol_cycle_witness:
  "gain (fst bench) = Some 1 \<and> readRaw_warn (\<lambda>t p. if t = 7 \<or> t = 76 then HIGH else LOW) (fst bench) (snd bench) = snd bench \<and>
   length (gpio (snd bench)) = 5 \<and>
   fst (readRaw (\<lambda>t p. if t = 7 \<or> t = 76 then HIGH else LOW) (fst bench) (snd bench)) = Inr [8388609] \<and>
   length (gpio (snd (readRaw (\<lambda>t p. if t = 7 \<or> t = 76 then HIGH else LOW) (fst bench) (snd bench)))) = 5 + 24 * 3 + 1 + 2"
proof -
  let ?env = "\<lambda>(t::nat) (p::int). if t = 7 \<or> t = 76 then HIGH else LOW"
  have g: "gain (fst bench) = Some 1" by (simp add: bench_eq)
  have w: "readRaw_warn ?env (fst bench) (snd bench) = snd bench"
    by (simp add: bench_eq readRaw_warn_def)
  have t: "length (gpio (snd bench)) = 5" by (simp add: bench_eq)
  from readRaw_protocol_cycle [OF g w t] g w t show ?thesis
    by (simp add: bench_eq num_of_HX711s_def pin_level_def lessThan_nat_numeral
          length_data_pulses [unfolded data_pulses_def])
qed

text \<open>
  Claim C2 says that a 24-bit value with bit 23 set is returned as a negative number. The
  code breaks it: the decoding loop assigns to its loop variable only, and the list goes
  back unchanged. With the data pin high during the first pulse only, the accumulator
  is \<^verbatim>\<open>0x800000\<close> and \<^verbatim>\<open>readRaw\<close> returns 8388608, not -8388608.
\<close>

theorem readRaw_no_sign_decode:
  "fst (readRaw (\<lambda>t p. if t = 7 then HIGH else LOW) (fst bench) (snd bench)) = Inr [8388608]"
  by (simp add: bench_eq readRaw_closed [OF refl] readRaw_warn_def num_of_HX711s_def cycle_value_def pin_level_def lessThan_nat_numeral)

section \<open>The gain at construction\<close>

text \<open>
  Claim C5, as amended: construction maps gain 128 to one pulse and gain 64 to three;
  any other gain leaves the pulse count unset, and construction still returns the
  instance. The only trace of an unsupported gain is a warning on the console, printed
  when debug is enabled.
\<close>

theorem init_gain_mapping:
  "\<exists>self w'. init data_pins clock_pin g debug w = Inr (self, w') \<and>
     gain self = (if g = 128 then Some 1 else if g = 64 then Some 3 else None) \<and>
     console w' = console w @
       (if g \<noteq> 128 \<and> g \<noteq> 64 \<and> debug
        then [Line ''Invalid gain used. Pass values of 128 or 64 only!''] else [])"
  by (simp add: init_closed GPIO_output_def GPIO_call_def py_print_def console_setup_inputs)

text \<open>The claim as stated fails: with gain 32, construction returns an instance.\<close>

theorem init_invalid_gain_counterexample:
  "\<not> isl (init [5] 6 32 False power_on) \<and> gain (fst (projr (init [5] 6 32 False power_on))) = None"
  by (simp add: init_closed)

text \<open>
  Claim C10: with a gain other than 128 and 64, construction returns an instance whose
  pulse count is unset, and on that instance, whatever its offsets have become, every
  \<^verbatim>\<open>readRaw\<close> and every \<^verbatim>\<open>read\<close> raises \<^verbatim>\<open>TypeError\<close>.
\<close>

theorem invalid_gain_TypeError:
  "g \<noteq> 128 \<Longrightarrow> g \<noteq> 64 \<Longrightarrow>
   \<exists>self w'. init data_pins clock_pin g debug w = Inr (self, w') \<and> gain self = None \<and>
     (\<forall>env offs w2. fst (readRaw env (self\<lparr>offsets := offs\<rparr>) w2) = Inl TypeError \<and>
                    fst (read env (self\<lparr>offsets := offs\<rparr>) w2) = Inl TypeError)"
  by (simp add: init_closed readRaw_closed [OF refl] read_def split: prod.split)

theorem invalid_gain_TypeError_witness:
  "(32::int) \<noteq> 128 \<and> (32::int) \<noteq> 64 \<and>
   gain (fst (projr (init [5] 6 32 False power_on))) = None \<and>
   fst (readRaw (\<lambda>t p. LOW) (fst (projr (init [5] 6 32 False power_on)))
          (snd (projr (init [5] 6 32 False power_on)))) = Inl TypeError \<and>
   fst (read (\<lambda>t p. LOW) (fst (projr (init [5] 6 32 False power_on)))
          (snd (projr (init [5] 6 32 False power_on)))) = Inl TypeError"
proof -
  from invalid_gain_TypeError [of 32 "[5]" 6 False power_on]
  obtain self w' where i: "init [5] 6 32 False power_on = Inr (self, w')"
    and g: "gain self = None"
    and e: "\<And>env offs w2. fst (readRaw env (self\<lparr>offsets := offs\<rparr>) w2) = Inl TypeError \<and>
                    fst (read env (self\<lparr>offsets := offs\<rparr>) w2) = Inl TypeError"
    by auto
  from e [of "\<lambda>t p. LOW" "offsets self" w'] g show ?thesis
    by (simp add: i)
qed

section \<open>Taring with too few samples\<close>

text \<open>
  Claim C6: with fewer than 100 samples requested, \<^verbatim>\<open>tare\<close> returns \<^verbatim>\<open>False\<close> at
  once. The instance, and with it the offsets, is unchanged, and so is the list of GPIO
  calls: the only effect is the line on the console.
\<close>

theorem tare_insufficient_samples:
  "n < 100 \<Longrightarrow>
   tare env self n d w =
     Some (Inr False, self, w\<lparr>console := console w @ [Line ''Cannot tare with less than 100 samples!'']\<rparr>)"
  by (simp add: tare_def py_print_def)

theorem tare_insufficient_samples_witness:
  "(50::int) < 100 \<and>
   tare (\<lambda>t p. HIGH) (fst bench) 50 (F 2) (snd bench) =
     Some (Inr False, fst bench,
       \<lparr>gpio = gpio (snd bench), console = [Line ''Cannot tare with less than 100 samples!'']\<rparr>)"
  using tare_insufficient_samples [of 50 "\<lambda>t p. HIGH" "fst bench" "F 2" "snd bench"]
  by (simp add: bench_eq)

section \<open>Outlier rejection and the offsets\<close>




text \<open>
  Claim C1 says that \<^verbatim>\<open>tare\<close> fails when more than 20 percent of all samples are
  discarded. The code breaks it: its test compares the number of rows of
  \<^verbatim>\<open>clean_data\<close> with 0.8 times the number of rows of \<^verbatim>\<open>samples\<close>, both the number
  of channels, and the count of retained samples is never read. On the bench, with
  conversions 0, 1, 2, 1 repeating and factor 0, only the 50 samples equal to the mean
  are retained out of 100, and \<^verbatim>\<open>tare\<close> returns \<^verbatim>\<open>True\<close> with offset 1.
\<close>

theorem tare_accepts_half_discarded:
  "map_option fst
     (tare_collect (hx711_signal (\<lambda>j. [0, 1, 2, 1] ! (j mod 4))) (fst bench) 100 [] (snd bench)) =
     Some (Inr (map (\<lambda>j. [[0, 1, 2, 1] ! (j mod 4)]) [0..<100])) \<and>
   clean_data_length (clean_data (F 0) (np_T (map (\<lambda>j. [[0, 1, 2, 1] ! (j mod 4)]) [0..<100]))) = Some 50 \<and>
   map_option (\<lambda>r. (fst r, offsets (fst (snd r))))
     (tare (hx711_signal (\<lambda>j. [0, 1, 2, 1] ! (j mod 4))) (fst bench) 100 (F 0) (snd bench)) =
     Some (Inr True, [F 1])"
proof -
  let ?v = "\<lambda>j::nat. [0, 1, 2, 1 :: int] ! (j mod 4)"
  let ?row = "map ?v [0..<100]"
  let ?S = "map (\<lambda>j. [?v j]) [0..<100]"
  have S: "map (\<lambda>j. [take_bit 24 (?v j)]) [0..<nat 100] = ?S"
    by (simp only: pattern_small) simp
  from bench_collect [of 100 ?v] obtain w1 where
    c: "tare_collect (hx711_signal ?v) (fst bench) 100 [] (snd bench) = Some (Inr ?S, w1)"
    unfolding S by auto
  have "np_T (map (\<lambda>x. [x]) ?row) = [?row]"
    by (rule np_T_single) simp
  then have T: "np_T ?S = [?row]"
    by (simp only: map_map comp_def)
  have avg: "np_average (Some (replicate 50 (1::int))) = F 1"
    by (simp add: np_average_def ones_mean)
  have h: "(100::int) \<le> 100" by simp
  have t: "tare (hx711_signal ?v) (fst bench) 100 (F 0) (snd bench) =
     Some (Inr True, (fst bench)\<lparr>offsets := [F 1]\<rparr>, w1)"
    by (simp only: tare_closed [OF h c] T pattern_retained avg list.map)
      (simp add: bench_eq)
  have l: "clean_data_length (clean_data (F 0) (np_T ?S)) = Some 50"
    by (simp only: T clean_data_rows clean_data_length_def pattern_retained list.map) simp
  show ?thesis
    by (simp only: c t l) simp
qed

section \<open>Calibrated readings\<close>

text \<open>
  Claim C8 says that before any \<^verbatim>\<open>tare\<close> the offsets are all zero, so that \<^verbatim>\<open>read\<close>
  returns the raw readings. The code breaks it, and with it the module's own description
  of \<^verbatim>\<open>read\<close>, which returns the readings with offsets applied whenever
  \<^verbatim>\<open>isReady()\<close>: the offsets start as the empty list. With two converters, both
  ready, \<^verbatim>\<open>readRaw\<close> returns two values and the subtraction of the empty array from
  them raises \<^verbatim>\<open>ValueError\<close>; with the one converter of the bench the result is an
  empty array.
\<close>

theorem read_before_tare_raises:
  "offsets (fst (projr (init [5, 13] 6 128 False power_on))) = [] \<and>
   fst (isReady (\<lambda>t p. LOW) (fst (projr (init [5, 13] 6 128 False power_on)))
          (snd (projr (init [5, 13] 6 128 False power_on)))) = True \<and>
   fst (readRaw (\<lambda>t p. LOW) (fst (projr (init [5, 13] 6 128 False power_on)))
          (snd (projr (init [5, 13] 6 128 False power_on)))) = Inr [0, 0] \<and>
   fst (read (\<lambda>t p. LOW) (fst (projr (init [5, 13] 6 128 False power_on)))
          (snd (projr (init [5, 13] 6 128 False power_on)))) = Inl ValueError \<and>
   fst (isReady (\<lambda>t p. LOW) (fst bench) (snd bench)) = True \<and>
   fst (readRaw (\<lambda>t p. LOW) (fst bench) (snd bench)) = Inr [0] \<and>
   fst (read (\<lambda>t p. LOW) (fst bench) (snd bench)) = Inr (RArray [])"
proof -
  let ?E = "\<lambda>(t::nat) (p::int). LOW"
  let ?I = "projr (init [5, 13] 6 128 False power_on)"
  have o: "offsets (fst ?I) = []" by (simp add: init_closed)
  have N: "num_of_HX711s (fst ?I) = 2" and g: "gain (fst ?I) = Some 1"
    by (simp_all add: init_closed num_of_HX711s_def)
  have rdy: "fst (isReady ?E (fst ?I) (snd ?I)) = True"
    by (simp add: isReady_no_debug init_closed)
  have "\<forall>k<24. pin_level ?E self t k i = LOW" for self t i
    by (simp add: pin_level_def)
  from cycle_value_const [OF this] have cv: "cycle_value ?E self t i = 0" for self t i by simp
  have raw: "fst (readRaw ?E (fst ?I) (snd ?I)) = Inr [0, 0]"
    by (simp only: readRaw_closed [OF refl] g N option.case fst_conv) (simp add: cv upt_rec)
  have rd: "fst (read ?E (fst ?I) (snd ?I)) = Inl ValueError"
    using raw o
    by (cases "readRaw ?E (fst ?I) (snd ?I)") (simp add: read_def list_eq_False_def np_subtract_def)
  have o1: "offsets (fst bench) = []" and N1: "num_of_HX711s (fst bench) = 1"
    and g1: "gain (fst bench) = Some 1"
    by (simp_all add: bench_eq num_of_HX711s_def)
  have rdy1: "fst (isReady ?E (fst bench) (snd bench)) = True"
    by (simp add: isReady_no_debug bench_eq)
  have raw1: "fst (readRaw ?E (fst bench) (snd bench)) = Inr [0]"
    by (simp only: readRaw_closed [OF refl] g1 N1 option.case fst_conv) (simp add: cv)
  have rd1: "fst (read ?E (fst bench) (snd bench)) = Inr (RArray [])"
    using raw1 o1
    by (cases "readRaw ?E (fst bench) (snd bench)") (simp add: read_def list_eq_False_def np_subtract_def)
  from o rdy raw rd rdy1 raw1 rd1 show ?thesis by simp
qed

text \<open>
  Claim C9 says that \<^verbatim>\<open>read\<close> reports a converter that is not ready. The code breaks
  it: \<^verbatim>\<open>readRaw\<close> never looks at the readiness outside its debug message and never
  returns \<^verbatim>\<open>False\<close>. On the bench, the converter delivers 100 zero samples and then
  holds its data line high (not ready): \<^verbatim>\<open>tare\<close> succeeds with offset 0,
  \<^verbatim>\<open>isReady\<close> answers \<^verbatim>\<open>False\<close>, and \<^verbatim>\<open>read\<close> clocks the line 24 times and returns
  16777215.
\<close>

theorem read_ignores_readiness:
  "fst (the (tare (\<lambda>t p. if t < 7605 then LOW else HIGH) (fst bench) 100 (F 2) (snd bench))) = Inr True \<and>
   offsets (fst (snd (the (tare (\<lambda>t p. if t < 7605 then LOW else HIGH) (fst bench) 100 (F 2) (snd bench)))))
     = [F 0] \<and>
   fst (isReady (\<lambda>t p. if t < 7605 then LOW else HIGH)
         (fst (snd (the (tare (\<lambda>t p. if t < 7605 then LOW else HIGH) (fst bench) 100 (F 2) (snd bench)))))
         (snd (snd (the (tare (\<lambda>t p. if t < 7605 then LOW else HIGH) (fst bench) 100 (F 2) (snd bench))))))
     = False \<and>
   fst (readRaw (\<lambda>t p. if t < 7605 then LOW else HIGH)
         (fst (snd (the (tare (\<lambda>t p. if t < 7605 then LOW else HIGH) (fst bench) 100 (F 2) (snd bench)))))
         (snd (snd (the (tare (\<lambda>t p. if t < 7605 then LOW else HIGH) (fst bench) 100 (F 2) (snd bench))))))
     = Inr [16777215] \<and>
   fst (read (\<lambda>t p. if t < 7605 then LOW else HIGH)
         (fst (snd (the (tare (\<lambda>t p. if t < 7605 then LOW else HIGH) (fst bench) 100 (F 2) (snd bench)))))
         (snd (snd (the (tare (\<lambda>t p. if t < 7605 then LOW else HIGH) (fst bench) 100 (F 2) (snd bench))))))
     = Inr (RArray [F 16777215])"
proof -
  let ?E = "\<lambda>(t::nat) (p::int). if t < 7605 then LOW else HIGH"
  let ?B = "(fst bench)\<lparr>offsets := [F 0]\<rparr>"
  from bench_tare_then_busy obtain w1 where
    t: "tare ?E (fst bench) 100 (F 2) (snd bench) = Some (Inr True, ?B, w1)"
    and l: "length (gpio w1) = 7605"
    by blast
  have rdy: "fst (isReady ?E ?B w1) = False"
    by (simp add: isReady_def bench_eq GPIO_input_def l Let_def)
  have t2: "length (gpio (readRaw_warn ?E ?B w1)) = 7605"
    using l by (simp add: readRaw_warn_def bench_eq)
  have g: "gain ?B = Some 1" and N: "num_of_HX711s ?B = 1"
    by (simp_all add: bench_eq num_of_HX711s_def)
  have "\<forall>k<24. pin_level ?E ?B 7605 k 0 = HIGH"
    by (simp add: pin_level_def)
  from cycle_value_const [OF this] have cv: "cycle_value ?E ?B 7605 0 = 16777215" by simp
  have rawfst: "fst (readRaw ?E ?B w1) = Inr [16777215]"
    using cv by (simp only: readRaw_closed [OF t2] g N option.case fst_conv) simp
  have f: "is_f64 (real_of_int 16777215)" by (rule is_f64_int) simp
  have "fst (read ?E ?B w1) = Inr (RArray [F 16777215])"
    using rawfst f
    by (cases "readRaw ?E ?B w1") (simp add: read_def list_eq_False_def np_subtract_def of_int64_def)
  then show ?thesis
    using rawfst rdy by (simp add: t)
qed

end
